theory Spec2Isabelle
  imports Main "HOL-Library.Sublist" "HOL-Library.AList"
begin

section \<open>JavaScript values\<close>

text \<open>
  The query-formatting helpers of pg-promise (\<^verbatim>\<open>lib/helpers\<close>) work on plain JavaScript
  values. A value is modelled by \<open>jsval\<close>. An object carries its own properties, each with
  its name, whether it is enumerable, and its value, and its prototype, \<open>JNull\<close> for none.
  The own properties stand in the order in which the engine lists the keys of the object,
  which is the order \<^verbatim>\<open>for...in\<close> follows, and each name stands once. An array carries its
  elements and its prototype; its own properties are the indices and the non-enumerable
  \<^verbatim>\<open>length\<close>. A function is a reference with the properties and the prototype of the
  function object; what it computes is given by an environment \<open>call f this args\<close>, a pure
  total function: callbacks that throw or that mutate their receiver are outside the
  model, and so are accessor properties.
\<close>

datatype jsval =
    JUndefined
  | JNull
  | JBool bool
  | JNum int
  | JStr string
  | JFun nat "(string \<times> bool \<times> jsval) list" jsval
  | JArr "jsval list" jsval
  | JObj "(string \<times> bool \<times> jsval) list" jsval

datatype js_type = TUndefined | TObject | TBoolean | TNumber | TString | TFunction

datatype js_error = TypeError string | Error string

type_synonym call_env = "nat \<Rightarrow> jsval \<Rightarrow> jsval list \<Rightarrow> jsval"

fun typeof :: "jsval \<Rightarrow> js_type" where
  "typeof JUndefined = TUndefined"
| "typeof JNull = TObject"
| "typeof (JBool b) = TBoolean"
| "typeof (JNum n) = TNumber"
| "typeof (JStr s) = TString"
| "typeof (JFun f ps p) = TFunction"
| "typeof (JArr xs p) = TObject"
| "typeof (JObj ps p) = TObject"

fun truthy :: "jsval \<Rightarrow> bool" where
  "truthy JUndefined = False"
| "truthy JNull = False"
| "truthy (JBool b) = b"
| "truthy (JNum n) = (n \<noteq> 0)"
| "truthy (JStr s) = (s \<noteq> [])"
| "truthy (JFun f ps p) = True"
| "truthy (JArr xs p) = True"
| "truthy (JObj ps p) = True"

fun isArray :: "jsval \<Rightarrow> bool" where
  "isArray (JArr xs p) = True"
| "isArray v = False"

text \<open>The guard \<^verbatim>\<open>!x || typeof x !== 'object'\<close> that opens most entry points.\<close>

definition is_object :: "jsval \<Rightarrow> bool" where
  "is_object v = (truthy v \<and> typeof v = TObject)"

text \<open>The values of the language's Object type: objects, arrays and functions.\<close>

fun has_properties :: "jsval \<Rightarrow> bool" where
  "has_properties (JObj ps p) = True"
| "has_properties (JArr xs p) = True"
| "has_properties (JFun f ps p) = True"
| "has_properties v = False"

fun show_nat :: "nat \<Rightarrow> string" where
  "show_nat n =
     (if n < 10 then [char_of (48 + n)]
      else show_nat (n div 10) @ [char_of (48 + n mod 10)])"

declare show_nat.simps [simp del]

fun own_members :: "jsval \<Rightarrow> (string \<times> bool \<times> jsval) list" where
  "own_members (JObj ps p) = ps"
| "own_members (JFun f ps p) = ps"
| "own_members (JArr xs p) =
     zip (map show_nat [0..<length xs]) (map (\<lambda>x. (True, x)) xs) @
     [(''length'', False, JNum (int (length xs)))]"
| "own_members v = []"

text \<open>The property \<open>k\<close> of a value, looked up on the value and then along its prototype
  chain, enumerable or not.\<close>

fun get_member :: "string \<Rightarrow> jsval \<Rightarrow> jsval option" where
  "get_member k (JObj ps p) =
     (case map_of ps k of Some m \<Rightarrow> Some (snd m) | None \<Rightarrow> get_member k p)"
| "get_member k (JFun f ps p) =
     (case map_of ps k of Some m \<Rightarrow> Some (snd m) | None \<Rightarrow> get_member k p)"
| "get_member k (JArr xs p) =
     (case map_of (own_members (JArr xs p)) k of
        Some m \<Rightarrow> Some (snd m)
      | None \<Rightarrow> get_member k p)"
| "get_member k v = None"

text \<open>
  \<^verbatim>\<open>k in v\<close> and \<^verbatim>\<open>v[k]\<close> for a value \<open>v\<close> that has properties. On any other value the
  operator \<^verbatim>\<open>in\<close> throws a TypeError (the text of its message is the engine's): \<open>in_op\<close>.
  \<^verbatim>\<open>Column\<close> and \<^verbatim>\<open>TableName\<close> apply \<^verbatim>\<open>in\<close> behind a \<^verbatim>\<open>typeof\<close> guard, where it cannot throw.
\<close>

definition js_in :: "string \<Rightarrow> jsval \<Rightarrow> bool" where
  "js_in k v = (get_member k v \<noteq> None)"

definition js_get :: "jsval \<Rightarrow> string \<Rightarrow> jsval" where
  "js_get v k = (case get_member k v of Some x \<Rightarrow> x | None \<Rightarrow> JUndefined)"

definition in_op :: "string \<Rightarrow> jsval \<Rightarrow> js_error + bool" where
  "in_op k v =
     (if has_properties v then Inr (js_in k v)
      else Inl (TypeError ''Cannot use 'in' operator to search for a key in a value that is not an object''))"

text \<open>
  The method call \<^verbatim>\<open>v.hasOwnProperty(name)\<close>: whatever function the property
  \<^verbatim>\<open>hasOwnProperty\<close> of \<open>v\<close> holds is called with \<open>v\<close> as receiver, and the call throws
  a TypeError when the property holds no function, as when the object shadows it or has
  no prototype to inherit it from. \<open>has_own\<close> is what the built-in
  \<^verbatim>\<open>Object.prototype.hasOwnProperty\<close> answers.
\<close>

definition hasOwnProperty :: "call_env \<Rightarrow> jsval \<Rightarrow> string \<Rightarrow> js_error + bool" where
  "hasOwnProperty call v name =
     (case js_get v ''hasOwnProperty'' of
        JFun f ps p \<Rightarrow> Inr (truthy (call f v [JStr name]))
      | _ \<Rightarrow> Inl (TypeError ''columns.hasOwnProperty is not a function''))"

definition has_own :: "jsval \<Rightarrow> string \<Rightarrow> bool" where
  "has_own v k = (map_of (own_members v) k \<noteq> None)"

text \<open>
  The names that \<^verbatim>\<open>for (var name in v)\<close> visits, in order: the enumerable own properties,
  then those of the prototype chain, a name that a nearer object has being skipped.
\<close>

fun for_in_from :: "string list \<Rightarrow> jsval \<Rightarrow> string list" where
  "for_in_from seen (JObj ps p) =
     map fst (filter (\<lambda>m. fst (snd m) \<and> fst m \<notin> set seen) ps) @
     for_in_from (seen @ map fst ps) p"
| "for_in_from seen (JFun f ps p) =
     map fst (filter (\<lambda>m. fst (snd m) \<and> fst m \<notin> set seen) ps) @
     for_in_from (seen @ map fst ps) p"
| "for_in_from seen (JArr xs p) =
     map fst (filter (\<lambda>m. fst (snd m) \<and> fst m \<notin> set seen) (own_members (JArr xs p))) @
     for_in_from (seen @ map fst (own_members (JArr xs p))) p"
| "for_in_from seen v = []"

definition for_in :: "jsval \<Rightarrow> string list" where
  "for_in v = for_in_from [] v"

text \<open>
  Modelled from the spec: \<^verbatim>\<open>lib/utils\<close> is missing. \<^verbatim>\<open>isNull\<close> is the check for
  null or undefined, \<^verbatim>\<open>isText\<close> the check for a non-empty text string.
\<close>

fun isNull :: "jsval \<Rightarrow> bool" where
  "isNull JNull = True"
| "isNull JUndefined = True"
| "isNull v = False"

fun isText :: "jsval \<Rightarrow> bool" where
  "isText (JStr s) = (s \<noteq> [])"
| "isText v = False"

text \<open>
  \<^verbatim>\<open>Array.prototype.join()\<close> on an array of strings, with the default separator.
\<close>

fun join :: "string list \<Rightarrow> string" where
  "join [] = []"
| "join [x] = x"
| "join (x # y # ys) = x @ '','' @ join (y # ys)"

section \<open>Column\<close>

text \<open>
  \<^verbatim>\<open>lib/helpers/column.js\<close>. A frozen \<^verbatim>\<open>Column\<close> object; an optional field that the
  constructor did not set is \<open>None\<close>. \<open>col_init\<close> and \<open>col_skip\<close> hold the callbacks'
  references. The identifier escape \<^verbatim>\<open>formatting.as.name\<close> is not part of the sources at
  hand and is a parameter \<open>as_name\<close> of the constructors.
\<close>

record Column =
  col_name :: string
  col_prop :: "string option"
  col_mod :: "string option"
  col_cast :: "string option"
  col_cnd :: "bool option"
  col_def :: "jsval option"
  col_init :: "nat option"
  col_skip :: "nat option"
  col_variable :: string
  col_castText :: string
  col_escapedName :: string

text \<open>The two prefix-stripping loops: \<open>idx\<close> runs over the leading occurrences of a character.\<close>

function lead_idx :: "char \<Rightarrow> string \<Rightarrow> nat \<Rightarrow> nat" where
  "lead_idx ch name idx =
     (if idx < length name \<and> name ! idx = ch then lead_idx ch name (Suc idx) else idx)"
  by pat_completeness auto
termination
  by (relation "measure (\<lambda>(ch, name, idx). length name - idx)") auto

declare lead_idx.simps [simp del]

definition getCastName :: "string \<Rightarrow> string" where
  "getCastName name = (let idx = lead_idx CHR '':'' name 0 in
                         if idx \<noteq> 0 then drop idx name else name)"

definition stripCnd :: "string \<Rightarrow> string" where
  "stripCnd name = (let idx = lead_idx CHR ''?'' name 0 in
                      if idx \<noteq> 0 then drop idx name else name)"

text \<open>
  The match of \<^verbatim>\<open>/\^|~|#|:raw|:name|:json|:csv|:value/\<close>: the leftmost position at which
  an alternative matches, and there the first alternative that does.
\<close>

definition mod_tokens :: "string list" where
  "mod_tokens = [''^'', ''~'', ''#'', '':raw'', '':name'', '':json'', '':csv'', '':value'']"

fun match_at :: "string list \<Rightarrow> string \<Rightarrow> string option" where
  "match_at [] s = None"
| "match_at (t # ts) s = (if prefix t s then Some t else match_at ts s)"

fun match_mod :: "nat \<Rightarrow> string \<Rightarrow> (nat \<times> string) option" where
  "match_mod i [] = None"
| "match_mod i (c # cs) =
     (case match_at mod_tokens (c # cs) of
        Some t \<Rightarrow> Some (i, t)
      | None \<Rightarrow> match_mod (Suc i) cs)"

text \<open>\<^verbatim>\<open>a || b\<close> on an optional string and a string.\<close>

definition or_else :: "string option \<Rightarrow> string \<Rightarrow> string" where
  "or_else a b = (case a of Some s \<Rightarrow> if s \<noteq> [] then s else b | None \<Rightarrow> b)"

definition str_of :: "jsval \<Rightarrow> string" where
  "str_of v = (case v of JStr s \<Rightarrow> s | _ \<Rightarrow> [])"

text \<open>
  The tail of the constructor, from the check of \<^verbatim>\<open>this.name\<close> on. \<open>nm\<close> and \<open>pr\<close> are
  what the first part stored in \<^verbatim>\<open>this.name\<close> and \<^verbatim>\<open>this.prop\<close>, which may be any value yet.
\<close>

definition Column_finish ::
  "(string \<Rightarrow> string) \<Rightarrow> jsval \<Rightarrow> jsval option \<Rightarrow> string option \<Rightarrow> string option \<Rightarrow>
   bool option \<Rightarrow> jsval option \<Rightarrow> nat option \<Rightarrow> nat option \<Rightarrow> js_error + Column" where
  "Column_finish as_name nm pr md cast cnd df ini skp =
     (if \<not> isText nm then Inl (TypeError ''A column name must be a non-empty text string.'')
      else if pr \<noteq> None \<and> \<not> isText (the pr)
        then Inl (TypeError ''A property name must be a non-empty text string.'')
      else Inr \<lparr> col_name = str_of nm,
                 col_prop = map_option str_of pr,
                 col_mod = md,
                 col_cast = cast,
                 col_cnd = cnd,
                 col_def = df,
                 col_init = ini,
                 col_skip = skp,
                 col_variable = ''${'' @ or_else (map_option str_of pr) (str_of nm) @ or_else md [] @ ''}'',
                 col_castText = (case cast of Some c \<Rightarrow> if c \<noteq> [] then ''::'' @ c else [] | None \<Rightarrow> []),
                 col_escapedName = as_name (str_of nm) \<rparr>)"

definition Column_of_string :: "(string \<Rightarrow> string) \<Rightarrow> string \<Rightarrow> js_error + Column" where
  "Column_of_string as_name col =
     (let tmp = stripCnd col;
          cnd = (if col \<noteq> tmp then Some True else None)
      in case match_mod 0 tmp of
           Some (idx, m) \<Rightarrow>
             Column_finish as_name (JStr (take idx tmp)) None (Some m) None cnd None None None
         | None \<Rightarrow>
             Column_finish as_name (JStr tmp) None None None cnd None None None)"

definition Column_of_config :: "(string \<Rightarrow> string) \<Rightarrow> jsval \<Rightarrow> js_error + Column" where
  "Column_of_config as_name col =
     Column_finish as_name
       (if js_in ''name'' col then js_get col ''name'' else JUndefined)
       (if js_in ''prop'' col then Some (js_get col ''prop'') else None)
       (case js_get col ''mod'' of JStr m \<Rightarrow> if m \<noteq> [] then Some m else None | _ \<Rightarrow> None)
       (case js_get col ''cast'' of
          JStr c \<Rightarrow> if isText (JStr c) then Some (getCastName c) else None
        | _ \<Rightarrow> None)
       (if js_in ''cnd'' col then Some (truthy (js_get col ''cnd'')) else None)
       (if js_in ''def'' col then Some (js_get col ''def'') else None)
       (case js_get col ''init'' of JFun f ps p \<Rightarrow> Some f | _ \<Rightarrow> None)
       (case js_get col ''skip'' of JFun f ps p \<Rightarrow> Some f | _ \<Rightarrow> None)"

definition new_Column :: "(string \<Rightarrow> string) \<Rightarrow> jsval \<Rightarrow> js_error + Column" where
  "new_Column as_name col =
     (case col of
        JStr s \<Rightarrow> Column_of_string as_name s
      | _ \<Rightarrow> if truthy col \<and> typeof col = TObject then Column_of_config as_name col
             else Inl (TypeError ''A column must be a string or a configurator object.''))"

section \<open>TableName\<close>

text \<open>\<^verbatim>\<open>lib/helpers/tableName.js\<close>. \<open>tn_schema\<close> is \<open>None\<close> when the constructor leaves
  \<^verbatim>\<open>this.schema\<close> unset.\<close>

record TableName =
  tn_table :: string
  tn_schema :: "string option"
  tn_name :: string

definition new_TableName :: "(string \<Rightarrow> string) \<Rightarrow> jsval \<Rightarrow> jsval \<Rightarrow> js_error + TableName" where
  "new_TableName as_name table schema =
     (let rec = (is_object table \<and> js_in ''table'' table);
          schema1 = (if rec then js_get table ''schema'' else schema);
          table1 = (if rec then js_get table ''table'' else table)
      in if \<not> isText table1 then Inl (TypeError ''Table name must be non-empty text string.'')
         else if \<not> isNull schema1 \<and> typeof schema1 \<noteq> TString
           then Inl (TypeError ''Invalid schema name.'')
         else
           (let this_schema = (if \<not> isNull schema1 \<and> length (str_of schema1) > 0
                               then Some (str_of schema1) else None);
                nm = as_name (str_of table1)
            in Inr \<lparr> tn_table = str_of table1,
                       tn_schema = this_schema,
                       tn_name = (case this_schema of
                                    Some s \<Rightarrow> if s \<noteq> [] then as_name (str_of schema1) @ ''.'' @ nm else nm
                                  | None \<Rightarrow> nm) \<rparr>))"

section \<open>ColumnSet\<close>

text \<open>
  \<^verbatim>\<open>lib/helpers/columnSet.js\<close>. Besides its two frozen fields a \<^verbatim>\<open>ColumnSet\<close> owns the
  closure variables \<^verbatim>\<open>names\<close>, \<^verbatim>\<open>variables\<close> and \<^verbatim>\<open>updates\<close> that memoize the derived
  strings; \<open>None\<close> is \<^verbatim>\<open>undefined\<close>. An access that may write one of them returns the
  new state of the object together with its result.

  Arguments that may be class instances are tagged unions: \<^verbatim>\<open>instanceof\<close> reads the tag.
\<close>

record ColumnSet =
  cs_table :: "TableName option"
  cs_columns :: "Column list"
  var_names :: "string option"
  var_variables :: "string option"
  var_updates :: "string option"

datatype table_arg = TableInst TableName | TableVal jsval

datatype column_arg = ColumnInst Column | ColumnVal jsval

datatype columns_spec = SpecCol Column | SpecArr "column_arg list" | SpecVal jsval

datatype options_arg = OptionsVal jsval | OptionsObj table_arg jsval

datatype columns_arg = ColumnsSet ColumnSet | ColumnsSpec columns_spec

type_synonym call_log = "(nat \<times> jsval \<times> jsval list) list"

text \<open>\<^verbatim>\<open>$map\<close> with a callback that may throw: the first fault aborts the loop.\<close>

fun map_err :: "('a \<Rightarrow> 'e + 'b) \<Rightarrow> 'a list \<Rightarrow> 'e + 'b list" where
  "map_err f [] = Inr []"
| "map_err f (x # xs) =
     (case f x of
        Inl e \<Rightarrow> Inl e
      | Inr y \<Rightarrow> (case map_err f xs of Inl e \<Rightarrow> Inl e | Inr ys \<Rightarrow> Inr (y # ys)))"

definition ColumnSet_table ::
  "(string \<Rightarrow> string) \<Rightarrow> table_arg \<Rightarrow> js_error + TableName option" where
  "ColumnSet_table as_name t =
     (case t of
        TableInst tn \<Rightarrow> Inr (Some tn)
      | TableVal v \<Rightarrow>
          if isNull v then Inr None
          else (case new_TableName as_name v JUndefined of
                  Inl e \<Rightarrow> Inl e | Inr tn \<Rightarrow> Inr (Some tn)))"

definition ColumnSet_options ::
  "(string \<Rightarrow> string) \<Rightarrow> options_arg \<Rightarrow> js_error + (TableName option \<times> jsval)" where
  "ColumnSet_options as_name options =
     (case options of
        OptionsVal v \<Rightarrow>
          if isNull v then Inr (None, JUndefined)
          else if typeof v \<noteq> TObject
            then Inl (TypeError ''Invalid parameter 'options' specified.'')
          else (case ColumnSet_table as_name (TableVal (js_get v ''table'')) of
                  Inl e \<Rightarrow> Inl e
                | Inr t \<Rightarrow> Inr (t, js_get v ''inherit''))
      | OptionsObj t inh \<Rightarrow>
          (case ColumnSet_table as_name t of
             Inl e \<Rightarrow> Inl e
           | Inr t' \<Rightarrow> Inr (t', inh)))"

definition column_of_arg :: "(string \<Rightarrow> string) \<Rightarrow> column_arg \<Rightarrow> js_error + Column" where
  "column_of_arg as_name c = (case c of ColumnInst col \<Rightarrow> Inr col | ColumnVal v \<Rightarrow> new_Column as_name v)"

text \<open>
  The \<^verbatim>\<open>for...in\<close> loop of the constructor over the names left to visit: a name is taken
  when \<^verbatim>\<open>inherit\<close> is truthy or else when \<^verbatim>\<open>columns.hasOwnProperty(name)\<close> is, and a column
  is made of it as of a string. The first fault ends the loop.
\<close>

fun ColumnSet_loop ::
  "(string \<Rightarrow> string) \<Rightarrow> call_env \<Rightarrow> jsval \<Rightarrow> jsval \<Rightarrow> string list \<Rightarrow> js_error + Column list" where
  "ColumnSet_loop as_name call columns inherit [] = Inr []"
| "ColumnSet_loop as_name call columns inherit (name # names) =
     (case (if truthy inherit then Inr True else hasOwnProperty call columns name) of
        Inl e \<Rightarrow> Inl e
      | Inr taken \<Rightarrow>
          if taken then
            (case new_Column as_name (JStr name) of
               Inl e \<Rightarrow> Inl e
             | Inr c \<Rightarrow>
                 (case ColumnSet_loop as_name call columns inherit names of
                    Inl e \<Rightarrow> Inl e
                  | Inr cs \<Rightarrow> Inr (c # cs)))
          else ColumnSet_loop as_name call columns inherit names)"

definition ColumnSet_columns ::
  "(string \<Rightarrow> string) \<Rightarrow> call_env \<Rightarrow> columns_spec \<Rightarrow> jsval \<Rightarrow> js_error + Column list" where
  "ColumnSet_columns as_name call columns inherit =
     (case columns of
        SpecArr cs \<Rightarrow> map_err (column_of_arg as_name) cs
      | SpecCol c \<Rightarrow> Inr [c]
      | SpecVal v \<Rightarrow>
          (case v of
             JArr xs p \<Rightarrow> map_err (new_Column as_name) xs
           | _ \<Rightarrow> ColumnSet_loop as_name call v inherit (for_in v)))"

fun spec_is_object :: "columns_spec \<Rightarrow> bool" where
  "spec_is_object (SpecVal v) = is_object v"
| "spec_is_object s = True"

definition new_ColumnSet ::
  "(string \<Rightarrow> string) \<Rightarrow> call_env \<Rightarrow> columns_spec \<Rightarrow> options_arg \<Rightarrow> js_error + ColumnSet" where
  "new_ColumnSet as_name call columns options =
     (if \<not> spec_is_object columns then Inl (TypeError ''Invalid parameter 'columns' specified.'')
      else case ColumnSet_options as_name options of
             Inl e \<Rightarrow> Inl e
           | Inr (tbl, inherit) \<Rightarrow>
               (case ColumnSet_columns as_name call columns inherit of
                  Inl e \<Rightarrow> Inl e
                | Inr cols \<Rightarrow>
                    Inr \<lparr> cs_table = tbl, cs_columns = cols,
                          var_names = None, var_variables = None, var_updates = None \<rparr>))"

subsection \<open>The memoized strings\<close>

definition names_compute :: "Column list \<Rightarrow> string" where
  "names_compute cols =
     (let names = join (map col_escapedName cols)
      in if names \<noteq> [] then ''('' @ names @ '')'' else names)"

definition names_get :: "ColumnSet \<Rightarrow> string \<times> ColumnSet" where
  "names_get cs =
     (if or_else (var_names cs) [] = []
      then (let names = names_compute (cs_columns cs) in (names, cs\<lparr>var_names := Some names\<rparr>))
      else (the (var_names cs), cs))"

definition variables_get :: "ColumnSet \<Rightarrow> string \<times> ColumnSet" where
  "variables_get cs =
     (if or_else (var_variables cs) [] = []
      then (let variables = join (map col_variable (cs_columns cs))
            in (variables, cs\<lparr>var_variables := Some variables\<rparr>))
      else (the (var_variables cs), cs))"

text \<open>\<^verbatim>\<open>c.prop || c.name\<close>, the name of the source property of a column.\<close>

definition prop_name :: "Column \<Rightarrow> string" where
  "prop_name c = or_else (col_prop c) (col_name c)"

definition is_cnd :: "Column \<Rightarrow> bool" where
  "is_cnd c = (col_cnd c = Some True)"

text \<open>
  The \<^verbatim>\<open>$filter\<close> callback of \<^verbatim>\<open>getUpdates\<close> over the columns: the columns kept, whether
  the callback set \<^verbatim>\<open>dynamic\<close>, and the calls of \<^verbatim>\<open>skip\<close> it made, in order.
\<close>

fun updates_filter :: "call_env \<Rightarrow> jsval \<Rightarrow> Column list \<Rightarrow> Column list \<times> bool \<times> call_log" where
  "updates_filter call obj [] = ([], False, [])"
| "updates_filter call obj (c # cs) =
     (case updates_filter call obj cs of (kept, dyn, log) \<Rightarrow>
        if is_cnd c then (kept, dyn, log)
        else (case col_skip c of
                Some f \<Rightarrow>
                  if truthy (call f obj [JStr (prop_name c)])
                  then (kept, True, (f, obj, [JStr (prop_name c)]) # log)
                  else (c # kept, True, (f, obj, [JStr (prop_name c)]) # log)
              | None \<Rightarrow> (c # kept, dyn, log)))"

definition update_text :: "Column \<Rightarrow> string" where
  "update_text c = col_escapedName c @ ''='' @ col_variable c @ col_castText c"

definition getUpdates :: "call_env \<Rightarrow> ColumnSet \<Rightarrow> jsval \<Rightarrow> (string \<times> ColumnSet) \<times> call_log" where
  "getUpdates call cs obj =
     (if or_else (var_updates cs) [] \<noteq> [] then ((the (var_updates cs), cs), [])
      else (case updates_filter call obj (cs_columns cs) of (kept, dynamic, log) \<Rightarrow>
              let list = join (map update_text kept)
              in ((list, if \<not> dynamic then cs\<lparr>var_updates := Some list\<rparr> else cs), log)))"

text \<open>The \<^verbatim>\<open>$forEach\<close> loop of \<^verbatim>\<open>canUpdate\<close>, on the counters \<^verbatim>\<open>cnd\<close> and \<^verbatim>\<open>skip\<close> and
  the calls made so far.\<close>

fun canUpdate_loop ::
  "call_env \<Rightarrow> jsval \<Rightarrow> Column list \<Rightarrow> nat \<times> nat \<times> call_log \<Rightarrow> nat \<times> nat \<times> call_log" where
  "canUpdate_loop call data [] st = st"
| "canUpdate_loop call data (c # cs) (cnd, skip, log) =
     canUpdate_loop call data cs
       (cnd + (if is_cnd c then 1 else 0),
        (case col_skip c of
           Some f \<Rightarrow> skip + (if truthy (call f data [JStr (prop_name c)]) then 1 else 0)
         | None \<Rightarrow> skip),
        (case col_skip c of
           Some f \<Rightarrow> log @ [(f, data, [JStr (prop_name c)])]
         | None \<Rightarrow> log))"

definition countIf :: "('a \<Rightarrow> bool) \<Rightarrow> 'a list \<Rightarrow> nat" where
  "countIf p xs = length (filter p xs)"

definition canUpdate :: "call_env \<Rightarrow> ColumnSet \<Rightarrow> jsval \<Rightarrow> js_error + (bool \<times> call_log)" where
  "canUpdate call cs data =
     (if \<not> truthy data \<or> typeof data \<noteq> TObject
      then Inl (TypeError ''Invalid parameter 'data' specified.'')
      else
        (let total = length (cs_columns cs)
         in case data of
              JArr xs p \<Rightarrow>
                (let cnd = countIf is_cnd (cs_columns cs)
                 in Inr (total > cnd \<and> length xs > 0, []))
            | _ \<Rightarrow>
                (case canUpdate_loop call data (cs_columns cs) (0, 0, []) of
                   (cnd, skip, log) \<Rightarrow> Inr (total > cnd + skip, log))))"

text \<open>
  \<^verbatim>\<open>prepare\<close>: the body of the \<^verbatim>\<open>$forEach\<close> callback on the object \<^verbatim>\<open>target\<close>, held as
  the list of its properties in insertion order, and the loop from the empty object. A
  fault of \<^verbatim>\<open>name in obj\<close> ends the loop. The result is the property list of the fresh
  \<^verbatim>\<open>target\<close>; \<^verbatim>\<open>obj\<close> is only read.
\<close>

definition prepare_step ::
  "call_env \<Rightarrow> jsval \<Rightarrow> (string \<times> jsval) list \<Rightarrow> Column \<Rightarrow> js_error + (string \<times> jsval) list" where
  "prepare_step call obj target c =
     (let name = prop_name c
      in case in_op name obj of
           Inl e \<Rightarrow> Inl e
         | Inr has \<Rightarrow>
             if has then
               (let v = js_get obj name
                in Inr (AList.update name
                          (case col_init c of Some f \<Rightarrow> call f obj [v] | None \<Rightarrow> v) target))
             else
               (case (case col_def c of
                        Some d \<Rightarrow> (AList.update name d target, d)
                      | None \<Rightarrow> (target, JUndefined)) of
                  (target1, v) \<Rightarrow>
                    (case col_init c of
                       Some f \<Rightarrow> Inr (AList.update name (call f obj [v]) target1)
                     | None \<Rightarrow> Inr target1)))"

fun prepare_loop ::
  "call_env \<Rightarrow> jsval \<Rightarrow> (string \<times> jsval) list \<Rightarrow> Column list \<Rightarrow> js_error + (string \<times> jsval) list" where
  "prepare_loop call obj target [] = Inr target"
| "prepare_loop call obj target (c # cs) =
     (case prepare_step call obj target c of
        Inl e \<Rightarrow> Inl e
      | Inr target1 \<Rightarrow> prepare_loop call obj target1 cs)"

definition prepare :: "call_env \<Rightarrow> ColumnSet \<Rightarrow> jsval \<Rightarrow> js_error + (string \<times> jsval) list" where
  "prepare call cs obj = prepare_loop call obj [] (cs_columns cs)"

section \<open>update\<close>

text \<open>
  \<^verbatim>\<open>lib/helpers/methods/update.js\<close>. The formatter \<^verbatim>\<open>formatting.as.format\<close> is not part of
  the sources at hand: it is the parameter \<open>format\<close>, which may throw. What \<^verbatim>\<open>update\<close> hands
  it as values is an array it has just built (\<open>Values\<close>), the fresh object of \<^verbatim>\<open>prepare\<close>
  by its properties (\<open>Named\<close>), or one value (\<open>Single\<close>). \<open>to_string\<close> stands
  for the \<^verbatim>\<open>toString()\<close> of a value that is not a string. \<open>update\<close> returns the query only:
  the \<^verbatim>\<open>ColumnSet\<close> it reads keeps its columns, whatever the getters memoize on the way.
\<close>

datatype format_values = Values "jsval list" | Named "(string \<times> jsval) list" | Single jsval

type_synonym formatter = "string \<Rightarrow> format_values \<Rightarrow> js_error + string"

definition toUpperCase :: "string \<Rightarrow> string" where
  "toUpperCase s =
     map (\<lambda>c. let n = (of_char c :: nat) in if 97 \<le> n \<and> n \<le> 122 then char_of (n - 32) else c) s"

definition toString :: "(jsval \<Rightarrow> string) \<Rightarrow> jsval \<Rightarrow> string" where
  "toString to_string v = (case v of JStr s \<Rightarrow> s | _ \<Rightarrow> to_string v)"

fun elements :: "jsval \<Rightarrow> jsval list" where
  "elements (JArr xs p) = xs"
| "elements v = []"

fun table_isNull :: "table_arg \<Rightarrow> bool" where
  "table_isNull (TableVal v) = isNull v"
| "table_isNull (TableInst tn) = False"

fun table_truthy :: "table_arg \<Rightarrow> bool" where
  "table_truthy (TableVal v) = truthy v"
| "table_truthy (TableInst tn) = True"

fun spec_isNull :: "columns_spec \<Rightarrow> bool" where
  "spec_isNull (SpecVal v) = isNull v"
| "spec_isNull s = False"

fun spec_truthy :: "columns_spec \<Rightarrow> bool" where
  "spec_truthy (SpecVal v) = truthy v"
| "spec_truthy s = True"

text \<open>The first branch of \<^verbatim>\<open>update\<close>: the column set to use, and the table argument
  after it.\<close>

definition update_columns ::
  "(string \<Rightarrow> string) \<Rightarrow> call_env \<Rightarrow> jsval \<Rightarrow> columns_arg \<Rightarrow> table_arg \<Rightarrow>
   js_error + (ColumnSet \<times> table_arg)" where
  "update_columns as_name call data columns table =
     (case columns of
        ColumnsSet cs \<Rightarrow>
          Inr (cs, if table_isNull table
                   then (case cs_table cs of Some tn \<Rightarrow> TableInst tn | None \<Rightarrow> TableVal JUndefined)
                   else table)
      | ColumnsSpec sp \<Rightarrow>
          if isArray data \<and> spec_isNull sp
          then Inl (TypeError ''Parameter 'columns' is required when updating multiple records.'')
          else (case new_ColumnSet as_name call (if spec_truthy sp then sp else SpecVal data)
                       (OptionsVal JUndefined) of
                  Inl e \<Rightarrow> Inl e
                | Inr cs \<Rightarrow> Inr (cs, table)))"

definition update_table :: "(string \<Rightarrow> string) \<Rightarrow> table_arg \<Rightarrow> js_error + TableName" where
  "update_table as_name table =
     (case table of
        TableInst tn \<Rightarrow> Inr tn
      | TableVal v \<Rightarrow> new_TableName as_name v JUndefined)"

definition errNoColumns :: string where
  "errNoColumns = ''Cannot generate a valid UPDATE without any columns.''"

definition alias_of :: "(jsval \<Rightarrow> string) \<Rightarrow> jsval \<Rightarrow> string \<Rightarrow> string \<Rightarrow> string" where
  "alias_of to_string options key dflt =
     (if truthy options \<and> truthy (js_get options key)
      then toString to_string (js_get options key) else dflt)"

text \<open>The \<^verbatim>\<open>$map\<close> over \<^verbatim>\<open>data\<close> that renders the value tuples; \<open>index\<close> counts the
  elements done.\<close>

fun update_values ::
  "formatter \<Rightarrow> call_env \<Rightarrow> ColumnSet \<Rightarrow> jsval list \<Rightarrow> nat \<Rightarrow> js_error + string list" where
  "update_values format call columns [] index = Inr []"
| "update_values format call columns (d # ds) index =
     (if \<not> truthy d \<or> typeof d \<noteq> TObject
      then Inl (Error (''Invalid update object at index '' @ show_nat index @ ''.''))
      else (case prepare call columns d of
              Inl e \<Rightarrow> Inl e
            | Inr target \<Rightarrow>
                (case format (fst (variables_get columns)) (Named target) of
                   Inl e \<Rightarrow> Inl e
                 | Inr s \<Rightarrow>
                     (case update_values format call columns ds (Suc index) of
                        Inl e \<Rightarrow> Inl e
                      | Inr ss \<Rightarrow> Inr ((''('' @ s @ '')'') # ss)))))"

definition update_multi ::
  "formatter \<Rightarrow> call_env \<Rightarrow> (jsval \<Rightarrow> string) \<Rightarrow> ColumnSet \<Rightarrow> TableName \<Rightarrow> jsval list \<Rightarrow>
   jsval \<Rightarrow> jsval \<Rightarrow> js_error + string" where
  "update_multi format call to_string columns table data options capSQL =
     (let tableAlias = alias_of to_string options ''tableAlias'' ''t'';
          valueAlias = alias_of to_string options ''valueAlias'' ''v'';
          query = (if truthy capSQL
                   then toUpperCase ''update $1^ as $2^ set $3^ from (values$4^) as $5^''
                   else ''update $1^ as $2^ set $3^ from (values$4^) as $5^'');
          actualColumns = filter (\<lambda>c. \<not> is_cnd c) (cs_columns columns)
      in if actualColumns = [] then Inl (Error errNoColumns)
         else
           (let targetCols =
                  join (map (\<lambda>c. col_escapedName c @ ''='' @ valueAlias @ ''.'' @
                                  col_escapedName c @ col_castText c) actualColumns)
            in case update_values format call columns data 0 of
                 Inl e \<Rightarrow> Inl e
               | Inr values \<Rightarrow>
                   format query
                     (Values [JStr (tn_name table), JStr tableAlias, JStr targetCols,
                              JStr (join values), JStr (valueAlias @ fst (names_get columns))])))"

definition update_single ::
  "formatter \<Rightarrow> call_env \<Rightarrow> ColumnSet \<Rightarrow> TableName \<Rightarrow> jsval \<Rightarrow> jsval \<Rightarrow> js_error + string" where
  "update_single format call columns table data capSQL =
     (let updates = fst (fst (getUpdates call columns data))
      in if updates = [] then Inl (Error errNoColumns)
         else
           (let query = (if truthy capSQL then toUpperCase ''update $1^ set '' else ''update $1^ set '')
            in case format query (Single (JStr (tn_name table))) of
                 Inl e \<Rightarrow> Inl e
               | Inr q \<Rightarrow>
                   (case prepare call columns data of
                      Inl e \<Rightarrow> Inl e
                    | Inr target \<Rightarrow>
                        (case format updates (Named target) of
                           Inl e \<Rightarrow> Inl e
                         | Inr u \<Rightarrow> Inr (q @ u)))))"

definition update ::
  "(string \<Rightarrow> string) \<Rightarrow> formatter \<Rightarrow> call_env \<Rightarrow> (jsval \<Rightarrow> string) \<Rightarrow>
   jsval \<Rightarrow> columns_arg \<Rightarrow> table_arg \<Rightarrow> jsval \<Rightarrow> jsval \<Rightarrow> js_error + string" where
  "update as_name format call to_string data columns table options capSQL =
     (if \<not> truthy data \<or> typeof data \<noteq> TObject
      then Inl (TypeError ''Invalid parameter 'data' specified.'')
      else
        (case update_columns as_name call data columns table of
           Inl e \<Rightarrow> Inl e
         | Inr (cs, table1) \<Rightarrow>
             if isArray data \<and> length (elements data) = 0
             then Inl (TypeError ''Cannot generate an UPDATE from an empty array.'')
             else if \<not> isNull options \<and> typeof options \<noteq> TObject
             then Inl (TypeError ''Invalid parameter 'options' specified.'')
             else if \<not> table_truthy table1 then Inl (Error ''Table name is unknown.'')
             else
               (case update_table as_name table1 of
                  Inl e \<Rightarrow> Inl e
                | Inr tn \<Rightarrow>
                    if isArray data
                    then update_multi format call to_string cs tn (elements data) options capSQL
                    else update_single format call cs tn data capSQL)))"


section \<open>Specifications\<close>

text \<open>
  The split of a column string as the specification words it: \<open>nm\<close> is what stands before
  the first occurrence of a modifier token in \<open>r\<close> and \<open>md\<close> is that token, or \<open>nm\<close> is all
  of \<open>r\<close> when no token occurs.
\<close>

definition splits_at_first_token :: "string \<Rightarrow> string \<Rightarrow> string option \<Rightarrow> bool" where
  "splits_at_first_token r nm md =
     (case md of
        Some t \<Rightarrow> t \<in> set mod_tokens \<and> prefix (nm @ t) r \<and>
                  (\<forall>k<length nm. \<forall>t'\<in>set mod_tokens. \<not> prefix t' (drop k r))
      | None \<Rightarrow> nm = r \<and> (\<forall>k<length r. \<forall>t'\<in>set mod_tokens. \<not> prefix t' (drop k r)))"


text \<open>
  The lifetime of a \<^verbatim>\<open>ColumnSet\<close>: the states it goes through from \<open>cs0\<close> on, under any
  sequence of reads of \<^verbatim>\<open>names\<close> and \<^verbatim>\<open>variables\<close> and calls of \<^verbatim>\<open>getUpdates\<close>, the three
  operations that write its closure variables. \<open>fresh\<close> is the state the constructor leaves.
\<close>

inductive lifetime :: "call_env \<Rightarrow> ColumnSet \<Rightarrow> ColumnSet \<Rightarrow> bool" for call cs0 where
  start: "lifetime call cs0 cs0"
| read_names: "lifetime call cs0 cs \<Longrightarrow> lifetime call cs0 (snd (names_get cs))"
| read_variables: "lifetime call cs0 cs \<Longrightarrow> lifetime call cs0 (snd (variables_get cs))"
| call_getUpdates: "lifetime call cs0 cs \<Longrightarrow> lifetime call cs0 (snd (fst (getUpdates call cs obj)))"

definition fresh :: "ColumnSet \<Rightarrow> bool" where
  "fresh cs = (var_names cs = None \<and> var_variables cs = None \<and> var_updates cs = None)"

text \<open>A column's \<^verbatim>\<open>skip\<close> predicate, called with \<open>obj\<close> as receiver and the property name
  as argument, returns a truthy value.\<close>

definition skips :: "call_env \<Rightarrow> jsval \<Rightarrow> Column \<Rightarrow> bool" where
  "skips call obj c =
     (case col_skip c of Some f \<Rightarrow> truthy (call f obj [JStr (prop_name c)]) | None \<Rightarrow> False)"

text \<open>What the closure variables may hold: nothing yet, or the string computed from the
  columns; \<^verbatim>\<open>updates\<close> only when no column that is not conditional has a \<^verbatim>\<open>skip\<close>.\<close>

definition cache_inv :: "ColumnSet \<Rightarrow> bool" where
  "cache_inv cs =
     ((var_names cs = None \<or> var_names cs = Some (names_compute (cs_columns cs))) \<and>
      (var_variables cs = None \<or> var_variables cs = Some (join (map col_variable (cs_columns cs)))) \<and>
      (var_updates cs = None \<or>
       (var_updates cs = Some (join (map update_text (filter (\<lambda>c. \<not> is_cnd c) (cs_columns cs)))) \<and>
        list_all (\<lambda>c. is_cnd c \<or> col_skip c = None) (cs_columns cs))))"


text \<open>
  The descriptor of a plain object's property as the specification words it: a column of
  the same name, reading the property of that name, with nothing else set.
\<close>

definition same_named :: "(string \<Rightarrow> string) \<Rightarrow> string \<Rightarrow> Column" where
  "same_named as_name n =
     \<lparr> col_name = n, col_prop = None, col_mod = None, col_cast = None, col_cnd = None,
       col_def = None, col_init = None, col_skip = None,
       col_variable = ''${'' @ n @ ''}'', col_castText = [], col_escapedName = as_name n \<rparr>"

text \<open>A name that the string form of a column leaves as it is: not empty, no leading
  \<^verbatim>\<open>?\<close>, and no modifier token in it.\<close>

definition plain_name :: "string \<Rightarrow> bool" where
  "plain_name n =
     (n \<noteq> [] \<and> hd n \<noteq> CHR ''?'' \<and>
      (\<forall>k<length n. \<forall>t\<in>set mod_tokens. \<not> prefix t (drop k n)))"




section \<open>Column: parsing a string\<close>

lemma lead_idx_drop:
  "idx \<le> length name \<Longrightarrow>
   drop (lead_idx ch name idx) name = dropWhile (\<lambda>c. c = ch) (drop idx name)"
proof (induction ch name idx rule: lead_idx.induct)
  case (1 ch name idx)
  show ?case
  proof (cases "idx < length name \<and> name ! idx = ch")
    case True
    then have "drop idx name = ch # drop (Suc idx) name"
      by (metis Cons_nth_drop_Suc)
    with True 1 show ?thesis
      by (subst lead_idx.simps) simp
  next
    case False
    show ?thesis
    proof (cases "idx < length name")
      case True
      with False have "name ! idx \<noteq> ch" by simp
      moreover from True have "drop idx name = name ! idx # drop (Suc idx) name"
        by (simp add: Cons_nth_drop_Suc)
      ultimately show ?thesis using False
        by (subst lead_idx.simps) simp
    next
      case False
      with 1 show ?thesis by (subst lead_idx.simps) simp
    qed
  qed
qed

lemma stripCnd_dropWhile: "stripCnd name = dropWhile (\<lambda>c. c = CHR ''?'') name"
proof -
  have h: "drop (lead_idx CHR ''?'' name 0) name = dropWhile (\<lambda>c. c = CHR ''?'') name"
    using lead_idx_drop [of 0 name "CHR ''?''"] by simp
  show ?thesis
  proof (cases "lead_idx CHR ''?'' name 0 = 0")
    case True
    with h show ?thesis by (simp add: stripCnd_def)
  next
    case False
    with h show ?thesis by (simp add: stripCnd_def)
  qed
qed

lemma getCastName_dropWhile: "getCastName name = dropWhile (\<lambda>c. c = CHR '':'') name"
proof -
  have h: "drop (lead_idx CHR '':'' name 0) name = dropWhile (\<lambda>c. c = CHR '':'') name"
    using lead_idx_drop [of 0 name "CHR '':''"] by simp
  show ?thesis
  proof (cases "lead_idx CHR '':'' name 0 = 0")
    case True
    with h show ?thesis by (simp add: getCastName_def)
  next
    case False
    with h show ?thesis by (simp add: getCastName_def)
  qed
qed

lemma match_at_Some: "match_at ts s = Some t \<Longrightarrow> t \<in> set ts \<and> prefix t s"
  by (induction ts) (auto split: if_splits)

lemma match_at_None: "match_at ts s = None \<Longrightarrow> t \<in> set ts \<Longrightarrow> \<not> prefix t s"
  by (induction ts) (auto split: if_splits)

lemma match_mod_None:
  "match_mod i s = None \<Longrightarrow> k < length s \<Longrightarrow> t \<in> set mod_tokens \<Longrightarrow> \<not> prefix t (drop k s)"
proof (induction s arbitrary: i k)
  case Nil
  then show ?case by simp
next
  case (Cons c cs)
  from Cons.prems(1) have a: "match_at mod_tokens (c # cs) = None" and b: "match_mod (Suc i) cs = None"
    by (auto split: option.splits)
  show ?case
  proof (cases k)
    case 0
    then show ?thesis using match_at_None [OF a Cons.prems(3)] by simp
  next
    case (Suc k')
    then show ?thesis using Cons.IH [OF b, of k'] Cons.prems by simp
  qed
qed

lemma match_mod_Some:
  "match_mod i s = Some (j, t) \<Longrightarrow>
     i \<le> j \<and> t \<in> set mod_tokens \<and> prefix (take (j - i) s @ t) s \<and>
     (\<forall>k<j - i. \<forall>t'\<in>set mod_tokens. \<not> prefix t' (drop k s))"
proof (induction s arbitrary: i)
  case Nil
  then show ?case by simp
next
  case (Cons c cs)
  show ?case
  proof (cases "match_at mod_tokens (c # cs)")
    case (Some t0)
    with Cons.prems have "j = i" "t = t0" by auto
    with match_at_Some [OF Some] show ?thesis by simp
  next
    case None
    with Cons.prems have m: "match_mod (Suc i) cs = Some (j, t)" by simp
    from Cons.IH [OF m] have ih: "Suc i \<le> j" "t \<in> set mod_tokens"
      "prefix (take (j - Suc i) cs @ t) cs"
      "\<forall>k<j - Suc i. \<forall>t'\<in>set mod_tokens. \<not> prefix t' (drop k cs)" by auto
    from ih(1) have ji: "j - i = Suc (j - Suc i)" by simp
    have "\<forall>k<j - i. \<forall>t'\<in>set mod_tokens. \<not> prefix t' (drop k (c # cs))"
    proof (intro allI impI ballI)
      fix k t' assume k: "k < j - i" and t': "t' \<in> set mod_tokens"
      show "\<not> prefix t' (drop k (c # cs))"
      proof (cases k)
        case 0
        then show ?thesis using match_at_None [OF None t'] by simp
      next
        case (Suc k')
        with k ji have "k' < j - Suc i" by simp
        with ih(4) t' Suc show ?thesis by simp
      qed
    qed
    with ih ji show ?thesis by simp
  qed
qed


lemma tokens_prefix_free:
  "t \<in> set mod_tokens \<Longrightarrow> t' \<in> set mod_tokens \<Longrightarrow> prefix t t' \<Longrightarrow> t = t'"
  by (auto simp: mod_tokens_def)

lemma tokens_nonempty: "t \<in> set mod_tokens \<Longrightarrow> t \<noteq> []"
  by (auto simp: mod_tokens_def)

lemma match_mod_splits:
  "splits_at_first_token r
     (case match_mod 0 r of Some (idx, m) \<Rightarrow> take idx r | None \<Rightarrow> r)
     (map_option snd (match_mod 0 r))"
proof (cases "match_mod 0 r")
  case None
  then show ?thesis
    using match_mod_None [OF None] by (simp add: splits_at_first_token_def)
next
  case (Some p)
  obtain j t where p: "p = (j, t)" by (cases p)
  from match_mod_Some [OF Some [unfolded p]]
  have a: "t \<in> set mod_tokens" "prefix (take j r @ t) r"
    "\<forall>k<j. \<forall>t'\<in>set mod_tokens. \<not> prefix t' (drop k r)" by auto
  from a(2) have "length (take j r @ t) \<le> length r" by (rule prefix_length_le)
  with tokens_nonempty [OF a(1)] have "j \<le> length r" by (cases "j \<le> length r") auto
  with a Some p show ?thesis by (simp add: splits_at_first_token_def)
qed

lemma prefix_drop_token:
  assumes "prefix (nm @ t) r"
  shows "prefix t (drop (length nm) r)"
  using assms by (auto simp: prefix_def)

lemma splits_unique:
  assumes "splits_at_first_token r nm md" "splits_at_first_token r nm' md'"
  shows "nm = nm' \<and> md = md'"
proof -
  have none_some: False
    if n: "splits_at_first_token r a None" and s: "splits_at_first_token r b (Some t)" for a b t
  proof -
    from s have t: "t \<in> set mod_tokens" and p: "prefix (b @ t) r"
      by (auto simp: splits_at_first_token_def)
    from p have pd: "prefix t (drop (length b) r)" by (rule prefix_drop_token)
    from t have "t \<noteq> []" by (rule tokens_nonempty)
    with p have "length b < length r" by (auto simp: prefix_def)
    with n t pd show False by (auto simp: splits_at_first_token_def)
  qed
  have le: "length a \<le> length b"
    if s1: "splits_at_first_token r a (Some t)" and s2: "splits_at_first_token r b (Some u)" for a b t u
  proof (rule ccontr)
    assume "\<not> length a \<le> length b"
    then have lt: "length b < length a" by simp
    from s2 have u: "u \<in> set mod_tokens" and p: "prefix (b @ u) r"
      by (auto simp: splits_at_first_token_def)
    from p have "prefix u (drop (length b) r)" by (rule prefix_drop_token)
    with s1 lt u show False by (auto simp: splits_at_first_token_def)
  qed
  show ?thesis
  proof (cases md)
    case None
    show ?thesis
    proof (cases md')
      case None
      with \<open>md = None\<close> assms show ?thesis by (simp add: splits_at_first_token_def)
    next
      case (Some t)
      with \<open>md = None\<close> assms none_some show ?thesis by blast
    qed
  next
    case (Some t)
    show ?thesis
    proof (cases md')
      case None
      with Some assms none_some show ?thesis by blast
    next
      case (Some u)
      note s1 = assms(1) [unfolded \<open>md = Some t\<close>] and s2 = assms(2) [unfolded Some]
      from le [OF s1 s2] le [OF s2 s1] have len: "length nm = length nm'" by simp
      from s1 have p1: "prefix (nm @ t) r" and t: "t \<in> set mod_tokens"
        by (auto simp: splits_at_first_token_def)
      from s2 have p2: "prefix (nm' @ u) r" and u: "u \<in> set mod_tokens"
        by (auto simp: splits_at_first_token_def)
      from p1 p2 len have nm: "nm = nm'" by (auto simp: prefix_def)
      from p1 have q1: "prefix t (drop (length nm) r)" by (rule prefix_drop_token)
      from p2 nm have q2: "prefix u (drop (length nm) r)" using prefix_drop_token by blast
      from q1 q2 have "prefix t u \<or> prefix u t" by (rule prefix_same_cases [THEN disjE]) auto
      with t u tokens_prefix_free have "t = u" by blast
      with nm Some \<open>md = Some t\<close> show ?thesis by simp
    qed
  qed
qed

lemma Column_of_string_eq:
  "Column_of_string as_name s =
     (let r = stripCnd s;
          nm = (case match_mod 0 r of Some (idx, m) \<Rightarrow> take idx r | None \<Rightarrow> r);
          md = map_option snd (match_mod 0 r)
      in if isText (JStr nm)
         then Inr \<lparr> col_name = nm, col_prop = None, col_mod = md, col_cast = None,
                    col_cnd = (if r \<noteq> s then Some True else None),
                    col_def = None, col_init = None, col_skip = None,
                    col_variable = ''${'' @ nm @ (case md of Some m \<Rightarrow> m | None \<Rightarrow> []) @ ''}'',
                    col_castText = [], col_escapedName = as_name nm \<rparr>
         else Inl (TypeError ''A column name must be a non-empty text string.''))"
  by (auto simp: Column_of_string_def Column_finish_def Let_def or_else_def str_of_def
           split: option.splits)

text \<open>
  Claim C4. For every string \<open>s\<close>, \<^verbatim>\<open>new Column(s)\<close> strips the leading \<^verbatim>\<open>?\<close> characters and
  sets \<^verbatim>\<open>cnd = true\<close> exactly when one was stripped. The first occurrence of a modifier
  token in the remainder splits it: what stands before the match is the name and the match
  is the modifier; with no occurrence the whole remainder is the name. The split exists and
  is unique. The construction throws the TypeError on the name exactly when that name is
  not a non-empty text, and otherwise returns the column of that name and modifier.
\<close>

theorem Column_string_parse:
  "(\<exists>nm md. splits_at_first_token (dropWhile (\<lambda>c. c = CHR ''?'') s) nm md) \<and>
   (\<forall>nm md. splits_at_first_token (dropWhile (\<lambda>c. c = CHR ''?'') s) nm md \<longrightarrow>
      new_Column as_name (JStr s) =
        (if isText (JStr nm)
         then Inr \<lparr> col_name = nm, col_prop = None, col_mod = md, col_cast = None,
                    col_cnd = (if dropWhile (\<lambda>c. c = CHR ''?'') s \<noteq> s then Some True else None),
                    col_def = None, col_init = None, col_skip = None,
                    col_variable = ''${'' @ nm @ (case md of Some m \<Rightarrow> m | None \<Rightarrow> []) @ ''}'',
                    col_castText = [], col_escapedName = as_name nm \<rparr>
         else Inl (TypeError ''A column name must be a non-empty text string.'')))"
proof (intro conjI allI impI)
  show "\<exists>nm md. splits_at_first_token (dropWhile (\<lambda>c. c = CHR ''?'') s) nm md"
    using match_mod_splits by blast
next
  fix nm md
  let ?r = "dropWhile (\<lambda>c. c = CHR ''?'') s"
  assume sp: "splits_at_first_token ?r nm md"
  from splits_unique [OF sp match_mod_splits]
  have nm: "nm = (case match_mod 0 ?r of Some (idx, m) \<Rightarrow> take idx ?r | None \<Rightarrow> ?r)"
    and md: "md = map_option snd (match_mod 0 ?r)" by auto
  have "new_Column as_name (JStr s) = Column_of_string as_name s"
    by (simp add: new_Column_def)
  also note Column_of_string_eq
  finally show "new_Column as_name (JStr s) =
        (if isText (JStr nm)
         then Inr \<lparr> col_name = nm, col_prop = None, col_mod = md, col_cast = None,
                    col_cnd = (if ?r \<noteq> s then Some True else None),
                    col_def = None, col_init = None, col_skip = None,
                    col_variable = ''${'' @ nm @ (case md of Some m \<Rightarrow> m | None \<Rightarrow> []) @ ''}'',
                    col_castText = [], col_escapedName = as_name nm \<rparr>
         else Inl (TypeError ''A column name must be a non-empty text string.''))"
    unfolding stripCnd_dropWhile Let_def nm [symmetric] md [symmetric] by (simp add: eq_commute)
qed


theorem Column_string_parse_witness:
  "splits_at_first_token ''id:csv'' ''id'' (Some '':csv'') \<and>
   new_Column (\<lambda>n. n) (JStr ''??id:csv'') =
     Inr \<lparr> col_name = ''id'', col_prop = None, col_mod = Some '':csv'', col_cast = None,
           col_cnd = Some True, col_def = None, col_init = None, col_skip = None,
           col_variable = ''${id:csv}'', col_castText = [], col_escapedName = ''id'' \<rparr>"
proof -
  have sp: "splits_at_first_token (dropWhile (\<lambda>c. c = CHR ''?'') ''??id:csv'') ''id'' (Some '':csv'')"
    by (auto simp: splits_at_first_token_def mod_tokens_def less_Suc_eq numeral_2_eq_2)
  from Column_string_parse [of "''??id:csv''" "\<lambda>n. n"] sp
  have "new_Column (\<lambda>n. n) (JStr ''??id:csv'') =
        (if isText (JStr ''id'')
         then Inr \<lparr> col_name = ''id'', col_prop = None, col_mod = Some '':csv'', col_cast = None,
                    col_cnd = (if dropWhile (\<lambda>c. c = CHR ''?'') ''??id:csv'' \<noteq> ''??id:csv'' then Some True else None),
                    col_def = None, col_init = None, col_skip = None,
                    col_variable = ''${'' @ ''id'' @ (case Some '':csv'' of Some m \<Rightarrow> m | None \<Rightarrow> []) @ ''}'',
                    col_castText = [], col_escapedName = ''id'' \<rparr>
         else Inl (TypeError ''A column name must be a non-empty text string.''))"
    by blast
  with sp show ?thesis by simp
qed

lemma match_at_hit: "t \<in> set ts \<Longrightarrow> prefix t s \<Longrightarrow> match_at ts s \<noteq> None"
  by (induction ts) auto

text \<open>
  Claim C10. When the string, after its leading \<^verbatim>\<open>?\<close> characters are stripped, is empty or
  begins with a modifier token (as \<^verbatim>\<open>'?'\<close>, \<^verbatim>\<open>''\<close> and \<^verbatim>\<open>'?:csv'\<close> do), the parsed name is
  empty and \<^verbatim>\<open>new Column\<close> throws the TypeError "A column name must be a non-empty text
  string.".
\<close>

theorem Column_empty_name:
  assumes "r = dropWhile (\<lambda>c. c = CHR ''?'') s"
    and "r = [] \<or> (\<exists>t\<in>set mod_tokens. prefix t r)"
  shows "new_Column as_name (JStr s) =
           Inl (TypeError ''A column name must be a non-empty text string.'')"
proof -
  have nm: "(case match_mod 0 r of Some (idx, m) \<Rightarrow> take idx r | None \<Rightarrow> r) = []"
  proof (cases r)
    case Nil
    then show ?thesis by simp
  next
    case (Cons c cs)
    with assms(2) obtain t where "t \<in> set mod_tokens" "prefix t (c # cs)" by auto
    then have "match_at mod_tokens (c # cs) \<noteq> None" by (rule match_at_hit)
    with Cons show ?thesis by auto
  qed
  have "new_Column as_name (JStr s) = Column_of_string as_name s"
    by (simp add: new_Column_def)
  also have "\<dots> = Inl (TypeError ''A column name must be a non-empty text string.'')"
    unfolding Column_of_string_eq stripCnd_dropWhile assms(1) [symmetric] Let_def nm by simp
  finally show ?thesis .
qed

theorem Column_empty_name_witness:
  "new_Column (\<lambda>n. n) (JStr ''?'') = Inl (TypeError ''A column name must be a non-empty text string.'') \<and>
   new_Column (\<lambda>n. n) (JStr []) = Inl (TypeError ''A column name must be a non-empty text string.'') \<and>
   new_Column (\<lambda>n. n) (JStr ''?:csv'') = Inl (TypeError ''A column name must be a non-empty text string.'')"
proof (intro conjI)
  show "new_Column (\<lambda>n. n) (JStr ''?'') = Inl (TypeError ''A column name must be a non-empty text string.'')"
    by (rule Column_empty_name [where r = "[]"]) simp_all
  show "new_Column (\<lambda>n. n) (JStr []) = Inl (TypeError ''A column name must be a non-empty text string.'')"
    by (rule Column_empty_name [where r = "[]"]) simp_all
  show "new_Column (\<lambda>n. n) (JStr ''?:csv'') = Inl (TypeError ''A column name must be a non-empty text string.'')"
    by (rule Column_empty_name [where r = "'':csv''"]) (simp_all add: mod_tokens_def)
qed

section \<open>TableName: construction\<close>


text \<open>
  Claim C8. Let \<open>t\<close> and \<open>s\<close> be the table and the schema that \<^verbatim>\<open>new TableName(table, schema)\<close>
  works on: the fields of \<open>table\<close> when it is an object with a \<^verbatim>\<open>table\<close> property (the
  record form), the two arguments otherwise. The constructor throws a TypeError when \<open>t\<close> is
  not a non-empty string, and when \<open>s\<close> is neither null nor undefined nor a string. An
  empty-string schema is treated as absent: \<^verbatim>\<open>schema\<close> is not set. \<^verbatim>\<open>name\<close> is the escaped
  schema, a dot and the escaped table when a schema is set, and the escaped table alone
  otherwise. In the record form the separate \<open>schema\<close> argument is ignored.
\<close>

theorem TableName_construct:
  assumes t: "t = (if is_object table \<and> js_in ''table'' table then js_get table ''table'' else table)"
    and s: "s = (if is_object table \<and> js_in ''table'' table then js_get table ''schema'' else schema)"
  shows "(\<not> (\<exists>x. t = JStr x \<and> x \<noteq> []) \<longrightarrow>
            new_TableName as_name table schema =
              Inl (TypeError ''Table name must be non-empty text string.'')) \<and>
         (s \<noteq> JNull \<and> s \<noteq> JUndefined \<and> typeof s \<noteq> TString \<longrightarrow>
            (\<exists>m. new_TableName as_name table schema = Inl (TypeError m))) \<and>
         ((\<exists>x. t = JStr x \<and> x \<noteq> []) \<and> s \<noteq> JNull \<and> s \<noteq> JUndefined \<and> typeof s \<noteq> TString \<longrightarrow>
            new_TableName as_name table schema = Inl (TypeError ''Invalid schema name.'')) \<and>
         (\<forall>x. t = JStr x \<and> x \<noteq> [] \<and> (s = JNull \<or> s = JUndefined \<or> s = JStr []) \<longrightarrow>
            new_TableName as_name table schema =
              Inr \<lparr> tn_table = x, tn_schema = None, tn_name = as_name x \<rparr>) \<and>
         (\<forall>x y. t = JStr x \<and> x \<noteq> [] \<and> s = JStr y \<and> y \<noteq> [] \<longrightarrow>
            new_TableName as_name table schema =
              Inr \<lparr> tn_table = x, tn_schema = Some y, tn_name = as_name y @ ''.'' @ as_name x \<rparr>) \<and>
         (is_object table \<and> js_in ''table'' table \<longrightarrow>
            new_TableName as_name table schema = new_TableName as_name table schema')"
proof -
  have eq: "new_TableName as_name table schema =
      (if \<not> isText t then Inl (TypeError ''Table name must be non-empty text string.'')
       else if \<not> isNull s \<and> typeof s \<noteq> TString then Inl (TypeError ''Invalid schema name.'')
       else Inr \<lparr> tn_table = str_of t,
                  tn_schema = (if \<not> isNull s \<and> str_of s \<noteq> [] then Some (str_of s) else None),
                  tn_name = (if \<not> isNull s \<and> str_of s \<noteq> []
                             then as_name (str_of s) @ ''.'' @ as_name (str_of t)
                             else as_name (str_of t)) \<rparr>)"
    unfolding t s by (simp add: new_TableName_def Let_def)
  have c1: "\<not> (\<exists>x. t = JStr x \<and> x \<noteq> []) \<longrightarrow>
            new_TableName as_name table schema =
              Inl (TypeError ''Table name must be non-empty text string.'')"
    unfolding eq by (cases t) simp_all
  have c2: "(\<exists>x. t = JStr x \<and> x \<noteq> []) \<and> s \<noteq> JNull \<and> s \<noteq> JUndefined \<and> typeof s \<noteq> TString \<longrightarrow>
            new_TableName as_name table schema = Inl (TypeError ''Invalid schema name.'')"
    unfolding eq by (cases s) auto
  have c2': "s \<noteq> JNull \<and> s \<noteq> JUndefined \<and> typeof s \<noteq> TString \<longrightarrow>
            (\<exists>m. new_TableName as_name table schema = Inl (TypeError m))"
    unfolding eq by (cases s) auto
  have c3: "\<forall>x. t = JStr x \<and> x \<noteq> [] \<and> (s = JNull \<or> s = JUndefined \<or> s = JStr []) \<longrightarrow>
            new_TableName as_name table schema =
              Inr \<lparr> tn_table = x, tn_schema = None, tn_name = as_name x \<rparr>"
    unfolding eq by (auto simp: str_of_def)
  have c4: "\<forall>x y. t = JStr x \<and> x \<noteq> [] \<and> s = JStr y \<and> y \<noteq> [] \<longrightarrow>
            new_TableName as_name table schema =
              Inr \<lparr> tn_table = x, tn_schema = Some y, tn_name = as_name y @ ''.'' @ as_name x \<rparr>"
    unfolding eq by (auto simp: str_of_def)
  have c5: "is_object table \<and> js_in ''table'' table \<longrightarrow>
            new_TableName as_name table schema = new_TableName as_name table schema'"
    by (simp add: new_TableName_def Let_def)
  from c1 c2 c2' c3 c4 c5 show ?thesis by blast
qed

theorem TableName_construct_witness:
  "new_TableName (\<lambda>n. ''<'' @ n @ ''>'') (JObj [(''table'', True, JStr ''tbl''), (''schema'', True, JStr ''sch'')] JNull) (JNum 5) =
     Inr \<lparr> tn_table = ''tbl'', tn_schema = Some ''sch'', tn_name = ''<sch>.<tbl>'' \<rparr> \<and>
   new_TableName (\<lambda>n. ''<'' @ n @ ''>'') (JStr ''tbl'') (JStr []) =
     Inr \<lparr> tn_table = ''tbl'', tn_schema = None, tn_name = ''<tbl>'' \<rparr> \<and>
   new_TableName (\<lambda>n. ''<'' @ n @ ''>'') (JStr ''tbl'') (JNum 5) = Inl (TypeError ''Invalid schema name.'') \<and>
   new_TableName (\<lambda>n. ''<'' @ n @ ''>'') (JStr []) JUndefined =
     Inl (TypeError ''Table name must be non-empty text string.'')"
proof (intro conjI)
  let ?o = "JObj [(''table'', True, JStr ''tbl''), (''schema'', True, JStr ''sch'')] JNull"
  have o: "is_object ?o \<and> js_in ''table'' ?o" "js_get ?o ''table'' = JStr ''tbl''"
    "js_get ?o ''schema'' = JStr ''sch''"
    by (simp_all add: is_object_def js_in_def js_get_def)
  show "new_TableName (\<lambda>n. ''<'' @ n @ ''>'') ?o (JNum 5) =
     Inr \<lparr> tn_table = ''tbl'', tn_schema = Some ''sch'', tn_name = ''<sch>.<tbl>'' \<rparr>"
    using TableName_construct [of "JStr ''tbl''" ?o "JStr ''sch''" "JNum 5" "\<lambda>n. ''<'' @ n @ ''>''"] o
    by simp
  show "new_TableName (\<lambda>n. ''<'' @ n @ ''>'') (JStr ''tbl'') (JStr []) =
     Inr \<lparr> tn_table = ''tbl'', tn_schema = None, tn_name = ''<tbl>'' \<rparr>"
    using TableName_construct [of "JStr ''tbl''" "JStr ''tbl''" "JStr []" "JStr []" "\<lambda>n. ''<'' @ n @ ''>''"]
    by (simp add: is_object_def)
  show "new_TableName (\<lambda>n. ''<'' @ n @ ''>'') (JStr ''tbl'') (JNum 5) = Inl (TypeError ''Invalid schema name.'')"
    using TableName_construct [of "JStr ''tbl''" "JStr ''tbl''" "JNum 5" "JNum 5" "\<lambda>n. ''<'' @ n @ ''>''"]
    by (simp add: is_object_def)
  show "new_TableName (\<lambda>n. ''<'' @ n @ ''>'') (JStr []) JUndefined =
     Inl (TypeError ''Table name must be non-empty text string.'')"
    using TableName_construct [of "JStr []" "JStr []" JUndefined JUndefined "\<lambda>n. ''<'' @ n @ ''>''"]
    by (simp add: is_object_def)
qed

section \<open>ColumnSet.canUpdate\<close>


lemma canUpdate_loop_counts:
  "canUpdate_loop call data cols (a, b, l) =
     (a + length (filter is_cnd cols),
      b + length (filter (\<lambda>c. \<exists>f. col_skip c = Some f \<and> truthy (call f data [JStr (prop_name c)])) cols),
      l @ map (\<lambda>c. (the (col_skip c), data, [JStr (prop_name c)])) (filter (\<lambda>c. col_skip c \<noteq> None) cols))"
  by (induction cols arbitrary: a b l) (auto split: option.splits)

text \<open>
  Claim C3. \<^verbatim>\<open>canUpdate(data)\<close>: for an array it returns true exactly when there are more
  columns than conditional columns and the array is not empty, and it calls no \<^verbatim>\<open>skip\<close>
  predicate. For a single object it returns true exactly when the number of columns exceeds
  the number of conditional columns plus the number of columns whose \<^verbatim>\<open>skip\<close>, called with
  \<open>data\<close> as receiver and the column's property name as argument, returns a truthy value;
  these calls are the ones it makes, in column order. For data that is not an object it
  throws the TypeError.
\<close>

theorem canUpdate_result:
  "(\<forall>xs p. data = JArr xs p \<longrightarrow>
      canUpdate call cs data =
        Inr (length (cs_columns cs) > length (filter is_cnd (cs_columns cs)) \<and> xs \<noteq> [], [])) \<and>
   (is_object data \<and> \<not> isArray data \<longrightarrow>
      canUpdate call cs data =
        Inr (length (cs_columns cs) >
               length (filter is_cnd (cs_columns cs)) +
               length (filter (\<lambda>c. \<exists>f. col_skip c = Some f \<and>
                                     truthy (call f data [JStr (prop_name c)])) (cs_columns cs)),
             map (\<lambda>c. (the (col_skip c), data, [JStr (prop_name c)]))
               (filter (\<lambda>c. col_skip c \<noteq> None) (cs_columns cs)))) \<and>
   (\<not> is_object data \<longrightarrow>
      canUpdate call cs data = Inl (TypeError ''Invalid parameter 'data' specified.''))"
proof (intro conjI allI impI)
  fix xs p assume "data = JArr xs p"
  then show "canUpdate call cs data =
        Inr (length (cs_columns cs) > length (filter is_cnd (cs_columns cs)) \<and> xs \<noteq> [], [])"
    by (simp add: canUpdate_def countIf_def)
next
  assume "is_object data \<and> \<not> isArray data"
  then show "canUpdate call cs data =
        Inr (length (cs_columns cs) >
               length (filter is_cnd (cs_columns cs)) +
               length (filter (\<lambda>c. \<exists>f. col_skip c = Some f \<and>
                                     truthy (call f data [JStr (prop_name c)])) (cs_columns cs)),
             map (\<lambda>c. (the (col_skip c), data, [JStr (prop_name c)]))
               (filter (\<lambda>c. col_skip c \<noteq> None) (cs_columns cs)))"
    by (cases data) (simp_all add: canUpdate_def is_object_def canUpdate_loop_counts)
next
  assume "\<not> is_object data"
  then show "canUpdate call cs data = Inl (TypeError ''Invalid parameter 'data' specified.'')"
    by (auto simp: canUpdate_def is_object_def)
qed


theorem canUpdate_result_witness:
  "canUpdate (\<lambda>f this args. JBool True)
     \<lparr> cs_table = None,
       cs_columns =
         [\<lparr> col_name = ''id'', col_prop = None, col_mod = None, col_cast = None,
            col_cnd = Some True, col_def = None, col_init = None, col_skip = None,
            col_variable = ''${id}'', col_castText = [], col_escapedName = ''id'' \<rparr>,
          \<lparr> col_name = ''a'', col_prop = None, col_mod = None, col_cast = None,
            col_cnd = None, col_def = None, col_init = None, col_skip = Some 1,
            col_variable = ''${a}'', col_castText = [], col_escapedName = ''a'' \<rparr>],
       var_names = None, var_variables = None, var_updates = None \<rparr>
     (JArr [JObj [] JNull] JNull) = Inr (True, []) \<and>
   canUpdate (\<lambda>f this args. JBool True)
     \<lparr> cs_table = None,
       cs_columns =
         [\<lparr> col_name = ''id'', col_prop = None, col_mod = None, col_cast = None,
            col_cnd = Some True, col_def = None, col_init = None, col_skip = None,
            col_variable = ''${id}'', col_castText = [], col_escapedName = ''id'' \<rparr>,
          \<lparr> col_name = ''a'', col_prop = None, col_mod = None, col_cast = None,
            col_cnd = None, col_def = None, col_init = None, col_skip = Some 1,
            col_variable = ''${a}'', col_castText = [], col_escapedName = ''a'' \<rparr>],
       var_names = None, var_variables = None, var_updates = None \<rparr>
     (JObj [] JNull) = Inr (False, [(1, JObj [] JNull, [JStr ''a''])]) \<and>
   canUpdate (\<lambda>f this args. JBool True)
     \<lparr> cs_table = None, cs_columns = [],
       var_names = None, var_variables = None, var_updates = None \<rparr>
     (JNum 5) = Inl (TypeError ''Invalid parameter 'data' specified.'')"
proof (intro conjI)
  let ?call = "\<lambda>(f::nat) (this::jsval) (args::jsval list). JBool True"
  let ?cs = "\<lparr> cs_table = None,
       cs_columns =
         [\<lparr> col_name = ''id'', col_prop = None, col_mod = None, col_cast = None,
            col_cnd = Some True, col_def = None, col_init = None, col_skip = None,
            col_variable = ''${id}'', col_castText = [], col_escapedName = ''id'' \<rparr>,
          \<lparr> col_name = ''a'', col_prop = None, col_mod = None, col_cast = None,
            col_cnd = None, col_def = None, col_init = None, col_skip = Some 1,
            col_variable = ''${a}'', col_castText = [], col_escapedName = ''a'' \<rparr>],
       var_names = None, var_variables = None, var_updates = None \<rparr>"
  show "canUpdate ?call ?cs (JArr [JObj [] JNull] JNull) = Inr (True, [])"
    using canUpdate_result [of "JArr [JObj [] JNull] JNull" ?call ?cs]
    by (simp add: is_cnd_def)
  show "canUpdate ?call ?cs (JObj [] JNull) = Inr (False, [(1, JObj [] JNull, [JStr ''a''])])"
    using canUpdate_result [of "JObj [] JNull" ?call ?cs]
    by (simp add: is_cnd_def is_object_def prop_name_def or_else_def)
  show "canUpdate ?call \<lparr> cs_table = None, cs_columns = [],
       var_names = None, var_variables = None, var_updates = None \<rparr>
     (JNum 5) = Inl (TypeError ''Invalid parameter 'data' specified.'')"
    using canUpdate_result [of "JNum 5" ?call "\<lparr> cs_table = None, cs_columns = [],
       var_names = None, var_variables = None, var_updates = None \<rparr>"]
    by (simp add: is_object_def)
qed

section \<open>ColumnSet: the memoized strings\<close>


lemma updates_filter_eq:
  "updates_filter call obj cols =
     (filter (\<lambda>c. \<not> is_cnd c \<and> \<not> skips call obj c) cols,
      \<not> list_all (\<lambda>c. is_cnd c \<or> col_skip c = None) cols,
      map (\<lambda>c. (the (col_skip c), obj, [JStr (prop_name c)]))
        (filter (\<lambda>c. \<not> is_cnd c \<and> col_skip c \<noteq> None) cols))"
  by (induction cols) (auto simp: skips_def split: option.splits)

lemma filter_static:
  "list_all (\<lambda>c. is_cnd c \<or> col_skip c = None) cols \<Longrightarrow>
   filter (\<lambda>c. \<not> is_cnd c \<and> \<not> skips call obj c) cols = filter (\<lambda>c. \<not> is_cnd c) cols"
  by (induction cols) (auto simp: skips_def)

lemma names_get_inv:
  "cache_inv cs \<Longrightarrow> fst (names_get cs) = names_compute (cs_columns cs)"
  by (auto simp: cache_inv_def names_get_def or_else_def Let_def)

lemma variables_get_inv:
  "cache_inv cs \<Longrightarrow> fst (variables_get cs) = join (map col_variable (cs_columns cs))"
  by (auto simp: cache_inv_def variables_get_def or_else_def Let_def)

lemma getUpdates_inv:
  assumes "cache_inv cs"
  shows "fst (fst (getUpdates call cs obj)) =
           join (map update_text (filter (\<lambda>c. \<not> is_cnd c \<and> \<not> skips call obj c) (cs_columns cs)))"
proof (cases "or_else (var_updates cs) [] \<noteq> []")
  case True
  then obtain u where u: "var_updates cs = Some u" "u \<noteq> []"
    by (cases "var_updates cs") (auto simp: or_else_def split: if_splits)
  with assms have "u = join (map update_text (filter (\<lambda>c. \<not> is_cnd c) (cs_columns cs)))"
    and "list_all (\<lambda>c. is_cnd c \<or> col_skip c = None) (cs_columns cs)"
    by (auto simp: cache_inv_def)
  with u True show ?thesis
    by (simp add: getUpdates_def filter_static)
next
  case False
  then show ?thesis
    by (simp add: getUpdates_def updates_filter_eq Let_def)
qed

lemma names_get_state:
  "cs_columns (snd (names_get cs)) = cs_columns cs"
  "cs_table (snd (names_get cs)) = cs_table cs"
  "var_variables (snd (names_get cs)) = var_variables cs"
  "var_updates (snd (names_get cs)) = var_updates cs"
  by (simp_all add: names_get_def Let_def)

lemma variables_get_state:
  "cs_columns (snd (variables_get cs)) = cs_columns cs"
  "cs_table (snd (variables_get cs)) = cs_table cs"
  "var_names (snd (variables_get cs)) = var_names cs"
  "var_updates (snd (variables_get cs)) = var_updates cs"
  by (simp_all add: variables_get_def Let_def)

lemma getUpdates_state:
  "cs_columns (snd (fst (getUpdates call cs obj))) = cs_columns cs"
  "cs_table (snd (fst (getUpdates call cs obj))) = cs_table cs"
  "var_names (snd (fst (getUpdates call cs obj))) = var_names cs"
  "var_variables (snd (fst (getUpdates call cs obj))) = var_variables cs"
  by (simp_all add: getUpdates_def Let_def split: prod.splits)

lemma names_get_cache:
  "cache_inv cs \<Longrightarrow> var_names (snd (names_get cs)) = Some (names_compute (cs_columns cs))"
  by (auto simp: cache_inv_def names_get_def or_else_def Let_def)

lemma variables_get_cache:
  "cache_inv cs \<Longrightarrow>
   var_variables (snd (variables_get cs)) = Some (join (map col_variable (cs_columns cs)))"
  by (auto simp: cache_inv_def variables_get_def or_else_def Let_def)

lemma getUpdates_cache:
  assumes "cache_inv cs"
  shows "var_updates (snd (fst (getUpdates call cs obj))) =
           (if list_all (\<lambda>c. is_cnd c \<or> col_skip c = None) (cs_columns cs)
            then Some (join (map update_text (filter (\<lambda>c. \<not> is_cnd c) (cs_columns cs))))
            else None)"
proof (cases "or_else (var_updates cs) [] \<noteq> []")
  case True
  then obtain u where u: "var_updates cs = Some u" "u \<noteq> []"
    by (cases "var_updates cs") (auto simp: or_else_def split: if_splits)
  with assms True show ?thesis
    by (auto simp: getUpdates_def cache_inv_def)
next
  case False
  have "var_updates cs = None \<or> var_updates cs = Some []"
    using False by (cases "var_updates cs") (auto simp: or_else_def split: if_splits)
  with assms False show ?thesis
    by (auto simp: getUpdates_def updates_filter_eq Let_def filter_static cache_inv_def)
qed

lemma cache_inv_names: "cache_inv cs \<Longrightarrow> cache_inv (snd (names_get cs))"
  using names_get_cache [of cs]
  by (simp add: cache_inv_def names_get_state)

lemma cache_inv_variables: "cache_inv cs \<Longrightarrow> cache_inv (snd (variables_get cs))"
  using variables_get_cache [of cs]
  by (simp add: cache_inv_def variables_get_state)

lemma cache_inv_getUpdates: "cache_inv cs \<Longrightarrow> cache_inv (snd (fst (getUpdates call cs obj)))"
  using getUpdates_cache [of cs call obj]
  by (simp add: cache_inv_def getUpdates_state)

lemma fresh_inv: "fresh cs \<Longrightarrow> cache_inv cs"
  by (simp add: fresh_def cache_inv_def)

lemma new_ColumnSet_fresh: "new_ColumnSet as_name call columns options = Inr cs \<Longrightarrow> fresh cs"
  by (auto simp: new_ColumnSet_def fresh_def split: if_splits sum.splits prod.splits)

lemma lifetime_inv:
  "lifetime call cs0 cs \<Longrightarrow> cache_inv cs0 \<Longrightarrow>
   cache_inv cs \<and> cs_columns cs = cs_columns cs0 \<and> cs_table cs = cs_table cs0"
  by (induction rule: lifetime.induct)
     (simp_all add: cache_inv_names cache_inv_variables cache_inv_getUpdates
        names_get_state variables_get_state getUpdates_state)


lemma join_nonempty:
  "xs \<noteq> [] \<Longrightarrow> list_all (\<lambda>x. x \<noteq> []) xs \<Longrightarrow> join xs \<noteq> []"
  by (induction xs rule: join.induct) auto

lemma names_compute_eq:
  assumes "list_all (\<lambda>c. col_escapedName c \<noteq> []) cols"
  shows "names_compute cols =
           (if cols = [] then [] else ''('' @ join (map col_escapedName cols) @ '')'')"
proof (cases "cols = []")
  case True
  then show ?thesis by (simp add: names_compute_def)
next
  case False
  from assms have "list_all (\<lambda>x. x \<noteq> []) (map col_escapedName cols)"
    by (simp add: list_all_iff)
  with False have "join (map col_escapedName cols) \<noteq> []"
    by (intro join_nonempty) simp_all
  with False show ?thesis by (simp add: names_compute_def)
qed

lemma lifetime_keeps:
  assumes "lifetime call cs cs'" "cache_inv cs"
  shows "(var_names cs = Some v \<longrightarrow> var_names cs' = Some v) \<and>
         (var_variables cs = Some w \<longrightarrow> var_variables cs' = Some w) \<and>
         (var_updates cs = Some u \<longrightarrow> var_updates cs' = Some u)"
  using assms
proof (induction rule: lifetime.induct)
  case start
  then show ?case by simp
next
  case (read_names x)
  from lifetime_inv [OF read_names.hyps read_names.prems]
  have i: "cache_inv x" "cs_columns x = cs_columns cs" by simp_all
  from read_names.prems have "var_names cs = Some v \<longrightarrow> v = names_compute (cs_columns cs)"
    by (auto simp: cache_inv_def)
  with read_names.IH [OF read_names.prems] i names_get_cache [OF i(1)]
  show ?case by (simp add: names_get_state)
next
  case (read_variables x)
  from lifetime_inv [OF read_variables.hyps read_variables.prems]
  have i: "cache_inv x" "cs_columns x = cs_columns cs" by simp_all
  from read_variables.prems
  have "var_variables cs = Some w \<longrightarrow> w = join (map col_variable (cs_columns cs))"
    by (auto simp: cache_inv_def)
  with read_variables.IH [OF read_variables.prems] i variables_get_cache [OF i(1)]
  show ?case by (simp add: variables_get_state)
next
  case (call_getUpdates x obj)
  from lifetime_inv [OF call_getUpdates.hyps call_getUpdates.prems]
  have i: "cache_inv x" "cs_columns x = cs_columns cs" by simp_all
  from call_getUpdates.prems
  have "var_updates cs = Some u \<longrightarrow>
          u = join (map update_text (filter (\<lambda>c. \<not> is_cnd c) (cs_columns cs))) \<and>
          list_all (\<lambda>c. is_cnd c \<or> col_skip c = None) (cs_columns cs)"
    by (auto simp: cache_inv_def)
  with call_getUpdates.IH [OF call_getUpdates.prems] i getUpdates_cache [OF i(1), of call obj]
  show ?case by (simp add: getUpdates_state)
qed

text \<open>
  Claim C9. In every state of a \<^verbatim>\<open>ColumnSet\<close>'s lifetime, from the fresh state on,
  \<^verbatim>\<open>names\<close> is the comma-separated list of the columns' escaped names in parentheses, and
  the empty string when there is no column; \<^verbatim>\<open>variables\<close> is the comma-separated list of
  every column's variable in column order, conditional columns included. A read stores its
  result in the closure variable, and a stored value is kept and returned in every later
  state. The escaped names are taken to be non-empty, as a quoted identifier is.
\<close>

theorem names_variables_memoized:
  assumes "fresh cs0" and "lifetime call cs0 cs"
    and "list_all (\<lambda>c. col_escapedName c \<noteq> []) (cs_columns cs0)"
  shows "fst (names_get cs) =
           (if cs_columns cs0 = [] then []
            else ''('' @ join (map col_escapedName (cs_columns cs0)) @ '')'') \<and>
         fst (variables_get cs) = join (map col_variable (cs_columns cs0)) \<and>
         var_names (snd (names_get cs)) = Some (fst (names_get cs)) \<and>
         var_variables (snd (variables_get cs)) = Some (fst (variables_get cs)) \<and>
         (\<forall>v cs'. var_names cs = Some v \<and> lifetime call cs cs' \<longrightarrow>
            var_names cs' = Some v \<and> fst (names_get cs') = v) \<and>
         (\<forall>w cs'. var_variables cs = Some w \<and> lifetime call cs cs' \<longrightarrow>
            var_variables cs' = Some w \<and> fst (variables_get cs') = w)"
proof -
  from lifetime_inv [OF assms(2) fresh_inv [OF assms(1)]]
  have i: "cache_inv cs" and c: "cs_columns cs = cs_columns cs0" by simp_all
  have n: "fst (names_get cs) =
           (if cs_columns cs0 = [] then []
            else ''('' @ join (map col_escapedName (cs_columns cs0)) @ '')'')"
    using names_get_inv [OF i] names_compute_eq [OF assms(3)] c by simp
  have v: "fst (variables_get cs) = join (map col_variable (cs_columns cs0))"
    using variables_get_inv [OF i] c by simp
  have nc: "var_names (snd (names_get cs)) = Some (fst (names_get cs))"
    using names_get_cache [OF i] names_get_inv [OF i] by simp
  have vc: "var_variables (snd (variables_get cs)) = Some (fst (variables_get cs))"
    using variables_get_cache [OF i] variables_get_inv [OF i] by simp
  have ln: "var_names cs' = Some v \<and> fst (names_get cs') = v"
    if h: "var_names cs = Some v \<and> lifetime call cs cs'" for v cs'
  proof -
    from h have l: "lifetime call cs cs'" by simp
    from lifetime_inv [OF l i] have i': "cache_inv cs'" "cs_columns cs' = cs_columns cs" by simp_all
    from lifetime_keeps [OF l i] h have k: "var_names cs' = Some v" by blast
    from h i have "v = names_compute (cs_columns cs)" by (auto simp: cache_inv_def)
    with k names_get_inv [OF i'(1)] i'(2) show ?thesis by simp
  qed
  have lv: "var_variables cs' = Some w \<and> fst (variables_get cs') = w"
    if h: "var_variables cs = Some w \<and> lifetime call cs cs'" for w cs'
  proof -
    from h have l: "lifetime call cs cs'" by simp
    from lifetime_inv [OF l i] have i': "cache_inv cs'" "cs_columns cs' = cs_columns cs" by simp_all
    from lifetime_keeps [OF l i] h have k: "var_variables cs' = Some w" by blast
    from h i have "w = join (map col_variable (cs_columns cs))" by (auto simp: cache_inv_def)
    with k variables_get_inv [OF i'(1)] i'(2) show ?thesis by simp
  qed
  from n v nc vc ln lv show ?thesis by blast
qed

theorem names_variables_memoized_witness:
  "fst (names_get (snd (names_get
     \<lparr> cs_table = None,
       cs_columns =
         [\<lparr> col_name = ''id'', col_prop = None, col_mod = None, col_cast = None,
            col_cnd = Some True, col_def = None, col_init = None, col_skip = None,
            col_variable = ''${id}'', col_castText = [], col_escapedName = ''<id>'' \<rparr>,
          \<lparr> col_name = ''a'', col_prop = None, col_mod = Some ''^'', col_cast = None,
            col_cnd = None, col_def = None, col_init = None, col_skip = None,
            col_variable = ''${a^}'', col_castText = [], col_escapedName = ''<a>'' \<rparr>],
       var_names = None, var_variables = None, var_updates = None \<rparr>))) = ''(<id>,<a>)'' \<and>
   fst (variables_get (snd (names_get
     \<lparr> cs_table = None,
       cs_columns =
         [\<lparr> col_name = ''id'', col_prop = None, col_mod = None, col_cast = None,
            col_cnd = Some True, col_def = None, col_init = None, col_skip = None,
            col_variable = ''${id}'', col_castText = [], col_escapedName = ''<id>'' \<rparr>,
          \<lparr> col_name = ''a'', col_prop = None, col_mod = Some ''^'', col_cast = None,
            col_cnd = None, col_def = None, col_init = None, col_skip = None,
            col_variable = ''${a^}'', col_castText = [], col_escapedName = ''<a>'' \<rparr>],
       var_names = None, var_variables = None, var_updates = None \<rparr>))) = ''${id},${a^}''"
proof -
  let ?cs0 = "\<lparr> cs_table = None,
       cs_columns =
         [\<lparr> col_name = ''id'', col_prop = None, col_mod = None, col_cast = None,
            col_cnd = Some True, col_def = None, col_init = None, col_skip = None,
            col_variable = ''${id}'', col_castText = [], col_escapedName = ''<id>'' \<rparr>,
          \<lparr> col_name = ''a'', col_prop = None, col_mod = Some ''^'', col_cast = None,
            col_cnd = None, col_def = None, col_init = None, col_skip = None,
            col_variable = ''${a^}'', col_castText = [], col_escapedName = ''<a>'' \<rparr>],
       var_names = None, var_variables = None, var_updates = None \<rparr>"
  have f: "fresh ?cs0" by (simp add: fresh_def)
  have l: "lifetime (\<lambda>f this args. JUndefined) ?cs0 (snd (names_get ?cs0))"
    by (rule lifetime.read_names) (rule lifetime.start)
  have e: "list_all (\<lambda>c. col_escapedName c \<noteq> []) (cs_columns ?cs0)" by simp
  from names_variables_memoized [OF f l e] show ?thesis by simp
qed

text \<open>
  Claim C5. In every state of a \<^verbatim>\<open>ColumnSet\<close>'s lifetime, \<^verbatim>\<open>getUpdates(obj)\<close> returns, in
  column order, the comma-separated list of escaped name, \<^verbatim>\<open>=\<close>, variable and cast text of
  the columns that are not conditional and whose \<^verbatim>\<open>skip\<close>, called with \<open>obj\<close> as receiver
  and the property name as argument, does not return a truthy value. The only calls it
  makes are those of the \<^verbatim>\<open>skip\<close> of the columns that are not conditional. The result is
  stored exactly when no column that is not conditional has a \<^verbatim>\<open>skip\<close>, and a stored
  string is what every later call returns, whatever object it is given.
\<close>

theorem getUpdates_result:
  assumes "fresh cs0" and "lifetime call cs0 cs"
  shows "fst (fst (getUpdates call cs obj)) =
           join (map (\<lambda>c. col_escapedName c @ ''='' @ col_variable c @ col_castText c)
                  (filter (\<lambda>c. \<not> is_cnd c \<and> \<not> skips call obj c) (cs_columns cs0))) \<and>
         (snd (getUpdates call cs obj) = [] \<or>
          snd (getUpdates call cs obj) =
            map (\<lambda>c. (the (col_skip c), obj, [JStr (prop_name c)]))
              (filter (\<lambda>c. \<not> is_cnd c \<and> col_skip c \<noteq> None) (cs_columns cs0))) \<and>
         (var_updates (snd (fst (getUpdates call cs obj))) \<noteq> None \<longleftrightarrow>
            list_all (\<lambda>c. is_cnd c \<or> col_skip c = None) (cs_columns cs0)) \<and>
         (\<forall>u cs' obj'. var_updates cs = Some u \<and> lifetime call cs cs' \<longrightarrow>
            var_updates cs' = Some u \<and> fst (fst (getUpdates call cs' obj')) = u)"
proof -
  from lifetime_inv [OF assms(2) fresh_inv [OF assms(1)]]
  have i: "cache_inv cs" and c: "cs_columns cs = cs_columns cs0" by simp_all
  have r: "fst (fst (getUpdates call cs obj)) =
           join (map (\<lambda>c. col_escapedName c @ ''='' @ col_variable c @ col_castText c)
                  (filter (\<lambda>c. \<not> is_cnd c \<and> \<not> skips call obj c) (cs_columns cs0)))"
    using getUpdates_inv [OF i, of call obj] c by (simp add: update_text_def [abs_def])
  have l: "snd (getUpdates call cs obj) = [] \<or>
          snd (getUpdates call cs obj) =
            map (\<lambda>c. (the (col_skip c), obj, [JStr (prop_name c)]))
              (filter (\<lambda>c. \<not> is_cnd c \<and> col_skip c \<noteq> None) (cs_columns cs0))"
    using c by (simp add: getUpdates_def updates_filter_eq Let_def)
  have m: "var_updates (snd (fst (getUpdates call cs obj))) \<noteq> None \<longleftrightarrow>
            list_all (\<lambda>c. is_cnd c \<or> col_skip c = None) (cs_columns cs0)"
    using getUpdates_cache [OF i, of call obj] c by simp
  have k: "var_updates cs' = Some u \<and> fst (fst (getUpdates call cs' obj')) = u"
    if h: "var_updates cs = Some u \<and> lifetime call cs cs'" for u cs' obj'
  proof -
    from h have lt: "lifetime call cs cs'" by simp
    from lifetime_inv [OF lt i] have i': "cache_inv cs'" "cs_columns cs' = cs_columns cs" by simp_all
    from lifetime_keeps [OF lt i] h have ku: "var_updates cs' = Some u" by blast
    from h i have u: "u = join (map update_text (filter (\<lambda>c. \<not> is_cnd c) (cs_columns cs)))"
      and st: "list_all (\<lambda>c. is_cnd c \<or> col_skip c = None) (cs_columns cs)"
      by (auto simp: cache_inv_def)
    from getUpdates_inv [OF i'(1), of call obj'] i'(2) u filter_static [OF st, of call obj'] ku
    show ?thesis by simp
  qed
  from r l m k show ?thesis by blast
qed

theorem getUpdates_result_witness:
  "fst (fst (getUpdates (\<lambda>f this args. JBool (f = 1))
     \<lparr> cs_table = None,
       cs_columns =
         [\<lparr> col_name = ''id'', col_prop = None, col_mod = None, col_cast = None,
            col_cnd = Some True, col_def = None, col_init = None, col_skip = Some 1,
            col_variable = ''${id}'', col_castText = [], col_escapedName = ''<id>'' \<rparr>,
          \<lparr> col_name = ''a'', col_prop = None, col_mod = None, col_cast = None,
            col_cnd = None, col_def = None, col_init = None, col_skip = Some 1,
            col_variable = ''${a}'', col_castText = [], col_escapedName = ''<a>'' \<rparr>,
          \<lparr> col_name = ''b'', col_prop = None, col_mod = None, col_cast = Some ''int'',
            col_cnd = None, col_def = None, col_init = None, col_skip = Some 2,
            col_variable = ''${b}'', col_castText = ''::int'', col_escapedName = ''<b>'' \<rparr>],
       var_names = None, var_variables = None, var_updates = None \<rparr>
     (JObj [] JNull))) = ''<b>=${b}::int'' \<and>
   var_updates (snd (fst (getUpdates (\<lambda>f this args. JBool (f = 1))
     \<lparr> cs_table = None,
       cs_columns =
         [\<lparr> col_name = ''id'', col_prop = None, col_mod = None, col_cast = None,
            col_cnd = Some True, col_def = None, col_init = None, col_skip = Some 1,
            col_variable = ''${id}'', col_castText = [], col_escapedName = ''<id>'' \<rparr>,
          \<lparr> col_name = ''a'', col_prop = None, col_mod = None, col_cast = None,
            col_cnd = None, col_def = None, col_init = None, col_skip = Some 1,
            col_variable = ''${a}'', col_castText = [], col_escapedName = ''<a>'' \<rparr>,
          \<lparr> col_name = ''b'', col_prop = None, col_mod = None, col_cast = Some ''int'',
            col_cnd = None, col_def = None, col_init = None, col_skip = Some 2,
            col_variable = ''${b}'', col_castText = ''::int'', col_escapedName = ''<b>'' \<rparr>],
       var_names = None, var_variables = None, var_updates = None \<rparr>
     (JObj [] JNull)))) = None"
proof -
  let ?cs0 = "\<lparr> cs_table = None,
       cs_columns =
         [\<lparr> col_name = ''id'', col_prop = None, col_mod = None, col_cast = None,
            col_cnd = Some True, col_def = None, col_init = None, col_skip = Some 1,
            col_variable = ''${id}'', col_castText = [], col_escapedName = ''<id>'' \<rparr>,
          \<lparr> col_name = ''a'', col_prop = None, col_mod = None, col_cast = None,
            col_cnd = None, col_def = None, col_init = None, col_skip = Some 1,
            col_variable = ''${a}'', col_castText = [], col_escapedName = ''<a>'' \<rparr>,
          \<lparr> col_name = ''b'', col_prop = None, col_mod = None, col_cast = Some ''int'',
            col_cnd = None, col_def = None, col_init = None, col_skip = Some 2,
            col_variable = ''${b}'', col_castText = ''::int'', col_escapedName = ''<b>'' \<rparr>],
       var_names = None, var_variables = None, var_updates = None \<rparr>"
  have f: "fresh ?cs0" by (simp add: fresh_def)
  have l: "lifetime (\<lambda>f this args. JBool (f = 1)) ?cs0 ?cs0" by (rule lifetime.start)
  from getUpdates_result [OF f l, of "JObj [] JNull"] show ?thesis
    by (simp add: is_cnd_def skips_def prop_name_def or_else_def)
qed

section \<open>ColumnSet.prepare\<close>












section \<open>ColumnSet: construction from a plain object\<close>

lemma match_mod_no_token:
  assumes "\<forall>k<length n. \<forall>t\<in>set mod_tokens. \<not> prefix t (drop k n)"
  shows "match_mod 0 n = None"
proof (cases "match_mod 0 n")
  case None
  then show ?thesis .
next
  case (Some p)
  obtain j t where p: "p = (j, t)" by (cases p)
  from match_mod_Some [OF Some [unfolded p]]
  have t: "t \<in> set mod_tokens" and pr: "prefix (take j n @ t) n" by auto
  from pr have le: "length (take j n @ t) \<le> length n" by (rule prefix_length_le)
  from tokens_nonempty [OF t] le have j: "j < length n" by (cases "j < length n") auto
  from pr have "prefix t (drop (length (take j n)) n)" by (rule prefix_drop_token)
  with j have "prefix t (drop j n)" by (simp add: min_def)
  with assms j t show ?thesis by blast
qed

lemma Column_plain_name:
  assumes "plain_name n"
  shows "new_Column as_name (JStr n) = Inr (same_named as_name n)"
proof -
  from assms have ne: "n \<noteq> []" and q: "hd n \<noteq> CHR ''?''"
    and nt: "\<forall>k<length n. \<forall>t\<in>set mod_tokens. \<not> prefix t (drop k n)"
    by (auto simp: plain_name_def)
  from ne q have st: "stripCnd n = n"
    by (cases n) (simp_all add: stripCnd_dropWhile)
  from match_mod_no_token [OF nt] st ne show ?thesis
    by (simp add: new_Column_def Column_of_string_eq same_named_def)
qed










section \<open>update: faults and the multi-row statement\<close>



lemma toUpperCase_single: "toUpperCase ''update $1^ set '' = ''UPDATE $1^ SET ''"
  by code_simp


text \<open>
  Claim C7, as amended. \<^verbatim>\<open>update\<close> on an array with \<^verbatim>\<open>columns\<close> null or undefined
  throws "Parameter 'columns' is required when updating multiple records.", whatever the
  array holds, the empty array included. On an empty array for which the column set is
  there (a \<^verbatim>\<open>ColumnSet\<close> was passed, or one could be built from \<^verbatim>\<open>columns\<close>) it throws
  "Cannot generate an UPDATE from an empty array.". On an object or a non-empty array for
  which the column set is there, with \<^verbatim>\<open>options\<close> null, undefined or an object, it throws
  "Table name is unknown." when the \<^verbatim>\<open>table\<close> argument is falsy and, if null or
  undefined, the \<^verbatim>\<open>ColumnSet\<close> passed has no table either. A fault is the whole result of
  the call: the result is a fault or a query.
\<close>

theorem update_faults:
  "(\<forall>xs p sp. data = JArr xs p \<and> columns = ColumnsSpec sp \<and> spec_isNull sp \<longrightarrow>
      update as_name format call to_string data columns table options capSQL =
        Inl (TypeError ''Parameter 'columns' is required when updating multiple records.'')) \<and>
   (\<forall>r p. data = JArr [] p \<and> update_columns as_name call data columns table = Inr r \<longrightarrow>
      update as_name format call to_string data columns table options capSQL =
        Inl (TypeError ''Cannot generate an UPDATE from an empty array.'')) \<and>
   (\<forall>cs t1. is_object data \<and> (\<forall>p. data \<noteq> JArr [] p) \<and>
      update_columns as_name call data columns table = Inr (cs, t1) \<and>
      (isNull options \<or> typeof options = TObject) \<and>
      \<not> table_truthy table \<and> (table_isNull table \<longrightarrow> (\<forall>c. columns = ColumnsSet c \<longrightarrow> cs_table c = None)) \<longrightarrow>
      update as_name format call to_string data columns table options capSQL =
        Inl (Error ''Table name is unknown.'')) \<and>
   ((\<exists>e. update as_name format call to_string data columns table options capSQL = Inl e) \<longleftrightarrow>
    \<not> (\<exists>q. update as_name format call to_string data columns table options capSQL = Inr q))"
proof (intro conjI allI impI)
  show "(\<exists>e. update as_name format call to_string data columns table options capSQL = Inl e) \<longleftrightarrow>
    \<not> (\<exists>q. update as_name format call to_string data columns table options capSQL = Inr q)"
    by (cases "update as_name format call to_string data columns table options capSQL") simp_all
next
  fix xs p sp
  assume "data = JArr xs p \<and> columns = ColumnsSpec sp \<and> spec_isNull sp"
  then show "update as_name format call to_string data columns table options capSQL =
        Inl (TypeError ''Parameter 'columns' is required when updating multiple records.'')"
    by (simp add: update_def update_columns_def)
next
  fix r p
  assume a: "data = JArr [] p \<and> update_columns as_name call data columns table = Inr r"
  obtain cs t1 where r: "r = (cs, t1)" by (cases r)
  from a have d: "data = JArr [] p" by blast
  from a r have uc: "update_columns as_name call (JArr [] p) columns table = Inr (cs, t1)" by metis
  show "update as_name format call to_string data columns table options capSQL =
        Inl (TypeError ''Cannot generate an UPDATE from an empty array.'')"
    unfolding d by (simp add: update_def uc)
next
  fix cs t1
  assume a: "is_object data \<and> (\<forall>p. data \<noteq> JArr [] p) \<and>
      update_columns as_name call data columns table = Inr (cs, t1) \<and>
      (isNull options \<or> typeof options = TObject) \<and>
      \<not> table_truthy table \<and> (table_isNull table \<longrightarrow> (\<forall>c. columns = ColumnsSet c \<longrightarrow> cs_table c = None))"
  then have uc: "update_columns as_name call data columns table = Inr (cs, t1)" by simp
  have t1: "\<not> table_truthy t1"
  proof (cases columns)
    case (ColumnsSet c)
    with uc a show ?thesis
      by (cases "table_isNull table") (auto simp: update_columns_def)
  next
    case (ColumnsSpec sp)
    with uc a show ?thesis
      by (auto simp: update_columns_def split: if_splits sum.splits)
  qed
  from a have ne: "\<not> (isArray data \<and> length (elements data) = 0)"
    by (cases data) auto
  from a uc t1 ne show "update as_name format call to_string data columns table options capSQL =
        Inl (Error ''Table name is unknown.'')"
    by (auto simp: update_def is_object_def)
qed


theorem update_faults_witness:
  "update (\<lambda>n. n) (\<lambda>t v. Inr t)
      (\<lambda>f this args. case args of [JStr n] \<Rightarrow> JBool (has_own this n) | _ \<Rightarrow> JUndefined) (\<lambda>v. [])
      (JArr [] JNull) (ColumnsSpec (SpecVal JUndefined)) (TableVal (JStr ''tbl'')) JUndefined JUndefined =
     Inl (TypeError ''Parameter 'columns' is required when updating multiple records.'') \<and>
   update (\<lambda>n. n) (\<lambda>t v. Inr t)
      (\<lambda>f this args. case args of [JStr n] \<Rightarrow> JBool (has_own this n) | _ \<Rightarrow> JUndefined) (\<lambda>v. [])
      (JArr [] JNull) (ColumnsSpec (SpecArr [ColumnVal (JStr ''a'')])) (TableVal (JStr ''tbl'')) JUndefined JUndefined =
     Inl (TypeError ''Cannot generate an UPDATE from an empty array.'') \<and>
   update (\<lambda>n. n) (\<lambda>t v. Inr t)
      (\<lambda>f this args. case args of [JStr n] \<Rightarrow> JBool (has_own this n) | _ \<Rightarrow> JUndefined) (\<lambda>v. [])
      (JObj [(''a'', True, JNum 1)] (JObj [(''hasOwnProperty'', False, JFun 0 [] JNull)] JNull))
      (ColumnsSpec (SpecVal JNull)) (TableVal JUndefined) JUndefined JUndefined =
     Inl (Error ''Table name is unknown.'')"
proof (intro conjI)
  let ?call = "\<lambda>(f::nat) this args. case args of [JStr n] \<Rightarrow> JBool (has_own this n) | _ \<Rightarrow> JUndefined"
  let ?u = "update (\<lambda>n. n) (\<lambda>t v. Inr t) ?call (\<lambda>v. [])"
  let ?d = "JObj [(''a'', True, JNum 1)] (JObj [(''hasOwnProperty'', False, JFun 0 [] JNull)] JNull)"
  have p: "plain_name ''a''"
    by (auto simp: plain_name_def mod_tokens_def)
  show "?u (JArr [] JNull) (ColumnsSpec (SpecVal JUndefined)) (TableVal (JStr ''tbl'')) JUndefined JUndefined =
     Inl (TypeError ''Parameter 'columns' is required when updating multiple records.'')"
    using update_faults [where data = "JArr [] JNull" and columns = "ColumnsSpec (SpecVal JUndefined)"
        and call = ?call] by simp
  have "\<exists>r. update_columns (\<lambda>n. n) ?call (JArr [] JNull) (ColumnsSpec (SpecArr [ColumnVal (JStr ''a'')]))
          (TableVal (JStr ''tbl'')) = Inr r"
    by (simp add: update_columns_def new_ColumnSet_def ColumnSet_options_def ColumnSet_columns_def
        column_of_arg_def Column_plain_name [OF p])
  then show "?u (JArr [] JNull) (ColumnsSpec (SpecArr [ColumnVal (JStr ''a'')])) (TableVal (JStr ''tbl'')) JUndefined JUndefined =
     Inl (TypeError ''Cannot generate an UPDATE from an empty array.'')"
    using update_faults [where data = "JArr [] JNull" and as_name = "\<lambda>n. n" and call = ?call
        and columns = "ColumnsSpec (SpecArr [ColumnVal (JStr ''a'')])" and table = "TableVal (JStr ''tbl'')"]
    by blast
  have "\<exists>cs t1. update_columns (\<lambda>n. n) ?call ?d (ColumnsSpec (SpecVal JNull))
          (TableVal JUndefined) = Inr (cs, t1)"
    by (simp add: update_columns_def new_ColumnSet_def ColumnSet_options_def ColumnSet_columns_def
        is_object_def for_in_def hasOwnProperty_def js_get_def has_own_def Column_plain_name [OF p])
  then show "?u ?d (ColumnsSpec (SpecVal JNull)) (TableVal JUndefined) JUndefined JUndefined =
     Inl (Error ''Table name is unknown.'')"
    using update_faults [where data = ?d and as_name = "\<lambda>n. n" and call = ?call
        and columns = "ColumnsSpec (SpecVal JNull)" and table = "TableVal JUndefined"
        and options = JUndefined]
    by (simp add: is_object_def)
qed

text \<open>
  Claim C7 as stated fails, since the checks run in order. On an empty array with a
  \<^verbatim>\<open>columns\<close> array that holds an empty name the fault is the column's, not the empty
  array's; and with no table to resolve and a number for \<^verbatim>\<open>options\<close> the fault is that of
  \<^verbatim>\<open>options\<close>, not "Table name is unknown.".
\<close>

theorem update_fault_order:
  "update (\<lambda>n. n) (\<lambda>t v. Inr t)
      (\<lambda>f this args. case args of [JStr n] \<Rightarrow> JBool (has_own this n) | _ \<Rightarrow> JUndefined) (\<lambda>v. [])
      (JArr [] JNull) (ColumnsSpec (SpecArr [ColumnVal (JStr [])])) (TableVal (JStr ''tbl'')) JUndefined JUndefined =
     Inl (TypeError ''A column name must be a non-empty text string.'') \<and>
   update (\<lambda>n. n) (\<lambda>t v. Inr t)
      (\<lambda>f this args. case args of [JStr n] \<Rightarrow> JBool (has_own this n) | _ \<Rightarrow> JUndefined) (\<lambda>v. [])
      (JObj [(''a'', True, JNum 1)] (JObj [(''hasOwnProperty'', False, JFun 0 [] JNull)] JNull))
      (ColumnsSpec (SpecVal JNull)) (TableVal JUndefined) (JNum 5) JUndefined =
     Inl (TypeError ''Invalid parameter 'options' specified.'')"
proof (intro conjI)
  let ?call = "\<lambda>(f::nat) this args. case args of [JStr n] \<Rightarrow> JBool (has_own this n) | _ \<Rightarrow> JUndefined"
  let ?u = "update (\<lambda>n. n) (\<lambda>t v. Inr t) ?call (\<lambda>v. [])"
  let ?d = "JObj [(''a'', True, JNum 1)] (JObj [(''hasOwnProperty'', False, JFun 0 [] JNull)] JNull)"
  show "?u (JArr [] JNull) (ColumnsSpec (SpecArr [ColumnVal (JStr [])])) (TableVal (JStr ''tbl'')) JUndefined JUndefined =
     Inl (TypeError ''A column name must be a non-empty text string.'')"
    by (simp add: update_def update_columns_def new_ColumnSet_def ColumnSet_options_def
        ColumnSet_columns_def column_of_arg_def new_Column_def Column_of_string_eq stripCnd_dropWhile)
  have p: "plain_name ''a''"
    by (auto simp: plain_name_def mod_tokens_def)
  show "?u ?d (ColumnsSpec (SpecVal JNull)) (TableVal JUndefined) (JNum 5) JUndefined =
     Inl (TypeError ''Invalid parameter 'options' specified.'')"
    by (simp add: update_def update_columns_def new_ColumnSet_def ColumnSet_options_def
        ColumnSet_columns_def is_object_def for_in_def hasOwnProperty_def js_get_def has_own_def
        Column_plain_name [OF p])
qed





end
